theory Spec2Isabelle
  imports Complex_Main "HOL-Library.Word"
begin

section \<open>Data model (types.ts)\<close>

datatype NetTypes = MAIN | TEST

datatype WalletTypes = DEFAULT | HD | MULTISIG

datatype TokenTypes = ETH | USDT | USDC | BNB | BUSD | NGNT | UNI | LINK | DAI

text \<open>The string value of each member of the enum \<open>TokenTypes\<close>.\<close>

fun token_string :: "TokenTypes \<Rightarrow> string" where
  "token_string ETH = ''eth''"
| "token_string USDT = ''usdt''"
| "token_string USDC = ''usdc''"
| "token_string BNB = ''bnb''"
| "token_string BUSD = ''busd''"
| "token_string NGNT = ''ngnt''"
| "token_string UNI = ''uni''"
| "token_string LINK = ''link''"
| "token_string DAI = ''dai''"

text \<open>
  A thrown \<open>Error\<close> or a rejected promise is a value: \<open>WalletError\<close> is raised by the
  wallet class itself, with its message; \<open>LibError f\<close> says that the library function
  \<open>f\<close> threw (its message is not modelled); \<open>RpcError\<close> is a rejection coming from the
  node behind a provider.
\<close>

datatype error = WalletError string | LibError string | RpcError string

text \<open>A field typed \<open>string | number\<close>.\<close>

datatype strnum = Str string | Num nat

text \<open>
  \<open>ITransaction\<close>. The interface types \<open>to\<close> as a string; the monitor tests \<open>tx.to\<close> for
  truthiness, so the field is optional here (\<open>None\<close> is \<open>null\<close>).
\<close>

record ITransaction =
  tx_blockHash :: string
  tx_blockNumber :: nat
  tx_from :: string
  tx_gas :: nat
  tx_gasPrice :: strnum
  tx_hash :: string
  tx_input :: string
  tx_nonce :: nat
  tx_to :: "string option"
  tx_transactionIndex :: nat
  tx_value :: strnum

record IWallet =
  w_privateKey :: string
  w_mnemonics :: "string option"
  w_address :: string
  w_checkSumAddress :: string
  w_publicKey :: string

record ICreateWalletOptions =
  o_type :: "WalletTypes option"
  o_privateKey :: "string option"
  o_mnemonics :: "string option"

record IGetBalanceOptions =
  b_address :: string
  b_token :: "TokenTypes option"

text \<open>\<open>IEstimate\<close>; a field that the object literal does not carry is \<open>None\<close>.\<close>

record IEstimate =
  e_nonce :: string
  e_to :: string
  e_value :: strnum
  e_gasLimit :: strnum
  e_gasPrice :: strnum
  e_data :: "string option"

record ISend =
  s_from :: string
  s_to :: string
  s_amount :: string
  s_token :: "TokenTypes option"

record TToken =
  t_symbol :: string
  t_name :: string
  t_contractAddress :: string
  t_decimals :: nat
  t_description :: string
  t_url :: string

datatype event =
    DATA string
  | NEW_PAYMENT ITransaction
  | UNCONFIRMED error string

section \<open>JavaScript strings\<close>

text \<open>
  Strings are lists of 8-bit code units. Truthiness of a string: the empty string is
  falsy.
\<close>

definition truthy :: "string \<Rightarrow> bool" where
  "truthy s = (s \<noteq> [])"

text \<open>\<open>a || b\<close> on an optional string \<open>a\<close>.\<close>

definition or_else :: "string option \<Rightarrow> string \<Rightarrow> string" where
  "or_else a b = (case a of None \<Rightarrow> b | Some s \<Rightarrow> if truthy s then s else b)"

definition lower_char :: "char \<Rightarrow> char" where
  "lower_char c =
     (case map_of (zip ''ABCDEFGHIJKLMNOPQRSTUVWXYZ'' ''abcdefghijklmnopqrstuvwxyz'') c of
        Some l \<Rightarrow> l
      | None \<Rightarrow> c)"

definition toLowerCase :: "string \<Rightarrow> string" where
  "toLowerCase s = map lower_char s"

text \<open>
  The white space of \<open>\s\<close> and of \<open>trim\<close> among the 8-bit code units: tab, line feed,
  vertical tab, form feed, carriage return, space and no-break space.
\<close>

definition is_ws :: "char \<Rightarrow> bool" where
  "is_ws c = (of_char c \<in> {9, 10, 11, 12, 13, 32, 160 :: nat})"

definition trim :: "string \<Rightarrow> string" where
  "trim s = rev (dropWhile is_ws (rev (dropWhile is_ws s)))"

text \<open>
  \<open>s.split(/\s+/g)\<close>: the pieces between the maximal runs of white space, an empty piece
  before a leading run and after a trailing one. \<open>cur\<close> is the piece being read, reversed;
  \<open>sep\<close> says that the previous code unit was white space.
\<close>

fun split_ws_from :: "bool \<Rightarrow> string \<Rightarrow> string \<Rightarrow> string list" where
  "split_ws_from sep cur [] = [rev cur]"
| "split_ws_from sep cur (c # cs) =
     (if is_ws c then
        (if sep then split_ws_from True cur cs
         else rev cur # split_ws_from True [] cs)
      else split_ws_from False (c # cur) cs)"

definition split_ws :: "string \<Rightarrow> string list" where
  "split_ws s = split_ws_from False [] s"

text \<open>\<open>s.split(d)\<close> for a one-character separator \<open>d\<close>.\<close>

fun split_on :: "char \<Rightarrow> string \<Rightarrow> string list" where
  "split_on d [] = [[]]"
| "split_on d (c # cs) =
     (if c = d then [] # split_on d cs
      else (case split_on d cs of [] \<Rightarrow> [[c]] | x # xs \<Rightarrow> (c # x) # xs))"

section \<open>Numerals\<close>

definition digit_char :: "nat \<Rightarrow> char" where
  "digit_char d = ''0123456789abcdef'' ! d"

text \<open>The decimal numeral of a natural number and of an integer (\<open>toString(10)\<close>).\<close>

fun nat_to_dec :: "nat \<Rightarrow> string" where
  "nat_to_dec n =
     (if n < 10 then [digit_char n] else nat_to_dec (n div 10) @ [digit_char (n mod 10)])"

declare nat_to_dec.simps [simp del]

definition int_to_dec :: "int \<Rightarrow> string" where
  "int_to_dec i = (if i < 0 then CHR ''-'' # nat_to_dec (nat (- i)) else nat_to_dec (nat i))"

definition is_digit :: "char \<Rightarrow> bool" where
  "is_digit c = (let n = (of_char c :: nat) in 48 \<le> n \<and> n \<le> 57)"

definition is_hex_letter :: "char \<Rightarrow> bool" where
  "is_hex_letter c =
     (let n = (of_char c :: nat) in (97 \<le> n \<and> n \<le> 102) \<or> (65 \<le> n \<and> n \<le> 70))"

definition digit_val :: "char \<Rightarrow> nat" where
  "digit_val c =
     (let n = (of_char c :: nat)
      in if 97 \<le> n then n - 87 else if 65 \<le> n then n - 55 else n - 48)"

text \<open>The value of a string of digits in base \<open>b\<close>.\<close>

definition base_val :: "nat \<Rightarrow> string \<Rightarrow> nat" where
  "base_val b s = foldl (\<lambda>a c. b * a + digit_val c) 0 s"

text \<open>\<open>new BN(s, b)\<close> on a string of digits with an optional leading minus sign.\<close>

definition BN_parse :: "nat \<Rightarrow> string \<Rightarrow> int" where
  "BN_parse b s =
     (if take 1 s = ''-'' then - int (base_val b (drop 1 s)) else int (base_val b s))"

section \<open>Library functions of web3.utils\<close>

text \<open>
  The regular expressions \<open>/^-?[0-9]+$/\<close>, \<open>/^[0-9A-Fa-f]+$/\<close>, \<open>/^[a-fA-F]+$/\<close> and
  \<open>/^-?[0-9.]+$/\<close>.
\<close>

definition match_integer :: "string \<Rightarrow> bool" where
  "match_integer s =
     (let t = (if take 1 s = ''-'' then drop 1 s else s) in t \<noteq> [] \<and> list_all is_digit t)"

definition match_hex :: "string \<Rightarrow> bool" where
  "match_hex s = (s \<noteq> [] \<and> list_all (\<lambda>c. is_digit c \<or> is_hex_letter c) s)"

definition match_hex_letters :: "string \<Rightarrow> bool" where
  "match_hex_letters s = (s \<noteq> [] \<and> list_all is_hex_letter s)"

definition match_number :: "string \<Rightarrow> bool" where
  "match_number s =
     (let t = (if take 1 s = ''-'' then drop 1 s else s)
      in t \<noteq> [] \<and> list_all (\<lambda>c. is_digit c \<or> c = CHR ''.'') t)"

definition stripHexPrefix :: "string \<Rightarrow> string" where
  "stripHexPrefix s = (if take 2 s = ''0x'' then drop 2 s else s)"

text \<open>
  \<open>web3.utils.toBN\<close> on a string (the package number-to-bn): a hexadecimal or a decimal
  integer, with an optional sign; anything else, a decimal point included, throws.
\<close>

definition toBN :: "string \<Rightarrow> error + int" where
  "toBN arg =
     (let formattedString = trim (toLowerCase arg);
          isHexPrefixed = (take 2 formattedString = ''0x'' \<or> take 3 formattedString = ''-0x'');
          stringArg0 = stripHexPrefix formattedString;
          negative = (take 1 stringArg0 = ''-'');
          stringArg1 = (if negative then stripHexPrefix (drop 1 stringArg0) else stringArg0);
          multiplier = (if negative then - 1 else 1 :: int);
          stringArg = (if stringArg1 = [] then ''0'' else stringArg1)
      in if (\<not> match_integer stringArg \<and> match_hex stringArg)
            \<or> match_hex_letters stringArg
            \<or> (isHexPrefixed \<and> match_hex stringArg)
         then Inr (BN_parse 16 stringArg * multiplier)
         else if (match_integer stringArg \<or> stringArg = []) \<and> \<not> isHexPrefixed
         then Inr (BN_parse 10 stringArg * multiplier)
         else Inl (LibError ''toBN''))"

text \<open>
  \<open>web3.utils.toWei(amount, "ether")\<close> on a string (the package ethjs-unit): the whole
  part times \<open>10^18\<close> plus the fraction padded with zeros to 18 digits, as a decimal
  numeral; more than 18 fraction digits, a second point, a lone point or any other
  character throw.
\<close>

definition toWei_ether :: "string \<Rightarrow> error + string" where
  "toWei_ether etherInput =
     (if \<not> match_number etherInput then Inl (LibError ''toWei'')
      else
        let negative = (take 1 etherInput = ''-'');
            ether = (if negative then drop 1 etherInput else etherInput)
        in if ether = ''.'' then Inl (LibError ''toWei'')
           else
             (let comps = split_on (CHR ''.'') ether
              in if length comps > 2 then Inl (LibError ''toWei'')
                 else
                   let whole0 = (case comps of [] \<Rightarrow> [] | x # _ \<Rightarrow> x);
                       fraction0 = (case comps of [_, y] \<Rightarrow> y | _ \<Rightarrow> []);
                       whole = (if whole0 = [] then ''0'' else whole0);
                       fraction = (if fraction0 = [] then ''0'' else fraction0)
                   in if length fraction > 18 then Inl (LibError ''toWei'')
                      else
                        let padded = fraction @ replicate (18 - length fraction) (CHR ''0'');
                            wei = BN_parse 10 whole * 10 ^ 18 + BN_parse 10 padded
                        in Inr (int_to_dec (if negative then wei * (- 1) else wei))))"

text \<open>
  \<open>web3.utils.fromWei(balance, "ether")\<close> on a balance in wei: the whole part, then a
  point and the 18 fraction digits without their trailing zeros, when the fraction is
  not zero.
\<close>

definition strip_trailing_zeros :: "string \<Rightarrow> string" where
  "strip_trailing_zeros s = rev (dropWhile (\<lambda>c. c = CHR ''0'') (rev s))"

definition fromWei_ether :: "nat \<Rightarrow> string" where
  "fromWei_ether wei =
     (let digits = nat_to_dec (wei mod 10 ^ 18);
          padded = replicate (18 - length digits) (CHR ''0'') @ digits;
          stripped = strip_trailing_zeros padded;
          fraction = (if stripped = [] then ''0'' else stripped);
          whole = nat_to_dec (wei div 10 ^ 18)
      in whole @ (if fraction = ''0'' then [] else ''.'' @ fraction))"

section \<open>Numbers and BigNumber\<close>

text \<open>
  \<open>Number(s)\<close> on the decimal numeral of \<open>n\<close>: the nearest double, ties to the even
  significand. A double has 53 significant bits, so every \<open>n < 2^53\<close> is kept and a
  larger one is rounded at bit \<open>bit_length n - 53\<close>. (Integers below \<open>2^256\<close> are far from
  the overflow to \<open>Infinity\<close>.)
\<close>

fun bit_length :: "nat \<Rightarrow> nat" where
  "bit_length n = (if n = 0 then 0 else Suc (bit_length (n div 2)))"

declare bit_length.simps [simp del]

definition js_Number :: "nat \<Rightarrow> nat" where
  "js_Number n =
     (if n < 2 ^ 53 then n
      else
        let e = bit_length n - 53;
            q = n div 2 ^ e;
            r = n mod 2 ^ e;
            half = 2 ^ (e - 1)
        in if r > half \<or> (r = half \<and> odd q) then (q + 1) * 2 ^ e else q * 2 ^ e)"

text \<open>
  \<open>String(d)\<close> on an integral double \<open>d\<close>, read back as a decimal: the numeral with the
  fewest significant digits that \<open>Number\<close> maps to \<open>d\<close>, the closest to \<open>d\<close> among those
  (the even one on a tie). With \<open>p\<close> trailing zeros the candidates are the multiples of
  \<open>10^p\<close> next to \<open>d\<close>; the search starts at the largest \<open>p\<close>.
\<close>

fun shortest_from :: "nat \<Rightarrow> nat \<Rightarrow> nat" where
  "shortest_from d 0 = d"
| "shortest_from d (Suc p) =
     (let lo = (d div 10 ^ Suc p) * 10 ^ Suc p;
          hi = lo + 10 ^ Suc p;
          lo_ok = (lo \<noteq> 0 \<and> js_Number lo = d);
          hi_ok = (js_Number hi = d)
      in if lo_ok \<and> hi_ok then
           (if d - lo < hi - d then lo
            else if hi - d < d - lo then hi
            else if even (d div 10 ^ Suc p) then lo else hi)
         else if lo_ok then lo
         else if hi_ok then hi
         else shortest_from d p)"

definition js_String_value :: "nat \<Rightarrow> nat" where
  "js_String_value d = shortest_from d (length (nat_to_dec d))"

text \<open>
  \<open>new BigNumber(v)\<close> on a number \<open>v\<close> takes the digits of \<open>String(v)\<close>, so its value on an
  integral double is \<open>js_String_value\<close>.

  A quotient of the library bignumber.js is a decimal \<open>c * 10^(-e)\<close>, here the pair
  \<open>(c, e)\<close>. \<open>x.dividedBy(10^k)\<close> keeps at most 20 decimal places (\<open>DECIMAL_PLACES\<close>) and
  rounds half up (\<open>ROUNDING_MODE\<close>), the defaults of the library.
\<close>

definition dividedBy_pow10 :: "nat \<Rightarrow> nat \<Rightarrow> nat \<times> nat" where
  "dividedBy_pow10 x k =
     (if k \<le> 20 then (x, k)
      else ((x + 5 * 10 ^ (k - 21)) div 10 ^ (k - 20), 20))"

text \<open>
  \<open>toString()\<close> of the decimal \<open>c * 10^(-e)\<close>: no trailing zeros in the fraction, and the
  exponential form when the exponent of the first digit is at most \<open>-7\<close> or at least
  \<open>21\<close>.
\<close>

definition count_trailing_zeros :: "string \<Rightarrow> nat" where
  "count_trailing_zeros s = length (takeWhile (\<lambda>c. c = CHR ''0'') (rev s))"

definition toExponential :: "string \<Rightarrow> int \<Rightarrow> string" where
  "toExponential str e =
     (if length str > 1 then take 1 str @ ''.'' @ drop 1 str else str)
     @ (if e < 0 then ''e'' else ''e+'') @ int_to_dec e"

definition toFixedPoint :: "string \<Rightarrow> int \<Rightarrow> string" where
  "toFixedPoint str e =
     (if e < 0 then ''0.'' @ replicate (nat (- e - 1)) (CHR ''0'') @ str
      else if nat e + 1 < length str then take (nat e + 1) str @ ''.'' @ drop (nat e + 1) str
      else str @ replicate (nat e + 1 - length str) (CHR ''0''))"

definition BigNumber_toString :: "nat \<times> nat \<Rightarrow> string" where
  "BigNumber_toString x =
     (case x of (c, e) \<Rightarrow>
        if c = 0 then ''0''
        else
          let digits = nat_to_dec c;
              coeff = take (length digits - count_trailing_zeros digits) digits;
              ex = int (length digits) - 1 - int e
          in if ex \<le> - 7 \<or> ex \<ge> 21 then toExponential coeff ex
             else toFixedPoint coeff ex)"

section \<open>Numbers as strings\<close>

text \<open>
  A JavaScript number: not-a-number, an infinity with its sign, or \<open>Finite neg m e\<close>, which
  is \<open>m * 2^e\<close>, negated when \<open>neg\<close> holds. A double has \<open>m < 2^53\<close> and
  \<open>-1074 \<le> e \<le> 971\<close>.
\<close>

datatype js_number = NaN | Infinity bool | Finite bool nat int

definition pw :: "nat \<Rightarrow> int \<Rightarrow> rat" where
  "pw b i = (if 0 \<le> i then of_nat (b ^ nat i) else 1 / of_nat (b ^ nat (- i)))"

text \<open>
  The normal form \<open>M * 2^E\<close> of a positive double: \<open>2^52 \<le> M < 2^53\<close>, or \<open>E = -1074\<close> for a
  subnormal one.
\<close>

definition normal_form :: "nat \<Rightarrow> int \<Rightarrow> nat \<times> int" where
  "normal_form m e =
     (let j = min (53 - int (bit_length m)) (e + 1074);
          s = nat (max 0 j)
      in (m * 2 ^ s, e - int s))"

text \<open>
  The rational \<open>c\<close> is read as the double \<open>M * 2^E\<close> (in normal form): it lies within half
  the distance to the neighbouring doubles, the halfway points included when \<open>M\<close> is even.
  Below a power of two the doubles are twice as dense.
\<close>

definition rounds_to :: "nat \<Rightarrow> int \<Rightarrow> rat \<Rightarrow> bool" where
  "rounds_to M E c =
     (let v = of_nat M * pw 2 E;
          up = pw 2 (E - 1);
          down = (if M = 2 ^ 52 \<and> - 1074 < E then pw 2 (E - 2) else pw 2 (E - 1))
      in (v - down < c \<and> c < v + up) \<or> (even M \<and> (c = v - down \<or> c = v + up)))"

text \<open>
  The digits of a positive double \<open>v = M * 2^E = V / 10^q\<close>: the decimal \<open>s * 10^t\<close> with the
  fewest digits \<open>k\<close> that is read as \<open>v\<close>, the closest to \<open>v\<close> among those (the even \<open>s\<close> on a
  tie). With \<open>k\<close> digits the candidates are the two decimals next to \<open>v\<close>; the search goes
  from \<open>k = 1\<close> upwards, and 17 digits always suffice.
\<close>

fun shortest_digits :: "nat \<Rightarrow> int \<Rightarrow> nat \<Rightarrow> int \<Rightarrow> nat \<Rightarrow> nat \<Rightarrow> nat \<times> int" where
  "shortest_digits M E V q k 0 = (V, - q)"
| "shortest_digits M E V q k (Suc fuel) =
     (let t = int (length (nat_to_dec V)) - q - int k;
          x = q + t;
          lo = (if 0 \<le> x then V div 10 ^ nat x else V * 10 ^ nat (- x));
          hi = lo + 1;
          v = of_nat M * pw 2 E;
          lo_ok = (lo \<noteq> 0 \<and> rounds_to M E (of_nat lo * pw 10 t));
          hi_ok = rounds_to M E (of_nat hi * pw 10 t)
      in if lo_ok \<and> hi_ok then
           (if v - of_nat lo * pw 10 t < of_nat hi * pw 10 t - v then (lo, t)
            else if of_nat hi * pw 10 t - v < v - of_nat lo * pw 10 t then (hi, t)
            else if even lo then (lo, t) else (hi, t))
         else if lo_ok then (lo, t)
         else if hi_ok then (hi, t)
         else shortest_digits M E V q (Suc k) fuel)"

definition fraction_digits :: "nat \<Rightarrow> int \<Rightarrow> nat \<times> int" where
  "fraction_digits m e =
     (case normal_form m e of (M, E) \<Rightarrow>
        let V = (if 0 \<le> E then M * 2 ^ nat E else M * 5 ^ nat (- E));
            q = (if 0 \<le> E then 0 else - E)
        in shortest_digits M E V q 1 17)"

text \<open>
  The digits \<open>ds\<close> (without trailing zeros) of a number below \<open>10^n\<close> and not below
  \<open>10^(n-1)\<close>, written as the language does: as an integer or with a point up to \<open>10^21\<close>,
  with leading zeros down to \<open>10^(-7)\<close>, with an exponent otherwise.
\<close>

definition format_digits :: "string \<Rightarrow> int \<Rightarrow> string" where
  "format_digits ds n =
     (let k = int (length ds)
      in if k \<le> n \<and> n \<le> 21 then ds @ replicate (nat (n - k)) (CHR ''0'')
         else if 0 < n \<and> n \<le> 21 then take (nat n) ds @ ''.'' @ drop (nat n) ds
         else if - 6 < n \<and> n \<le> 0 then ''0.'' @ replicate (nat (- n)) (CHR ''0'') @ ds
         else (if k = 1 then ds else take 1 ds @ ''.'' @ drop 1 ds)
              @ ''e'' @ (if 0 \<le> n - 1 then ''+'' else ''-'') @ nat_to_dec (nat \<bar>n - 1\<bar>))"

definition integral_part :: "nat \<Rightarrow> int \<Rightarrow> nat option" where
  "integral_part m e =
     (if 0 \<le> e then Some (m * 2 ^ nat e)
      else if 2 ^ nat (- e) dvd m then Some (m div 2 ^ nat (- e))
      else None)"

text \<open>
  \<open>String(x)\<close>, which a template literal applies to a number. An integer takes its digits
  from \<open>js_String_value\<close>, any other number from \<open>fraction_digits\<close>.
\<close>

definition Number_toString :: "js_number \<Rightarrow> string" where
  "Number_toString x =
     (case x of
        NaN \<Rightarrow> ''NaN''
      | Infinity neg \<Rightarrow> (if neg then ''-Infinity'' else ''Infinity'')
      | Finite neg m e \<Rightarrow>
          if m = 0 then ''0''
          else (if neg then ''-'' else [])
               @ (case integral_part m e of
                    Some i \<Rightarrow>
                      let digits = nat_to_dec (js_String_value i)
                      in format_digits (strip_trailing_zeros digits) (int (length digits))
                  | None \<Rightarrow>
                      (case fraction_digits m e of (s, t) \<Rightarrow>
                         let digits = nat_to_dec s
                         in format_digits (strip_trailing_zeros digits) (int (length digits) + t))))"

text \<open>
  The words of a phrase: its maximal runs of code units that are not white space, in
  order. \<open>cur\<close> is the word being read, reversed.
\<close>

fun words_acc :: "string \<Rightarrow> string \<Rightarrow> string list" where
  "words_acc cur [] = (if cur = [] then [] else [rev cur])"
| "words_acc cur (c # cs) =
     (if is_ws c then (if cur = [] then words_acc [] cs else rev cur # words_acc [] cs)
      else words_acc (c # cur) cs)"

definition ws_words :: "string \<Rightarrow> string list" where
  "ws_words s = words_acc [] s"

section \<open>Providers and the node behind them\<close>

text \<open>
  A \<open>Web3\<close> instance is identified by the URL it was constructed with. What the node
  behind an endpoint answers is a \<open>ledger\<close>; \<open>rpc\<close> below maps each endpoint to its node.
\<close>

type_synonym Web3 = string

record contract =
  c_abi :: TokenTypes
  c_address :: string
  c_from :: "string option"

record gas_request =
  g_nonce :: string
  g_to :: string
  g_value :: "strnum option"
  g_data :: "string option"
  g_from :: string

text \<open>
  The answers of a node. \<open>eth_getBalance\<close> takes the address and the optional block and
  answers the balance in wei; \<open>getTransaction\<close> answers \<open>None\<close> (\<open>null\<close>) for a hash the
  node does not know; \<open>balanceOf_call\<close> is \<open>contract.methods.balanceOf(address).call\<close>, a
  \<open>uint256\<close>; \<open>sendSignedTransaction\<close> is what the "receipt" event carries: \<open>None\<close> when
  the event never comes, \<open>Some None\<close> for a falsy receipt.
\<close>

record ledger =
  getTransactionCount :: "string \<Rightarrow> error + nat"
  getGasPrice :: "error + string"
  estimateGas :: "gas_request \<Rightarrow> error + nat"
  eth_getBalance :: "string \<Rightarrow> string option \<Rightarrow> error + nat"
  getTransaction :: "string \<Rightarrow> error + ITransaction option"
  balanceOf_call :: "contract \<Rightarrow> string \<Rightarrow> error + 256 word"
  sendSignedTransaction :: "string \<Rightarrow> ITransaction option option"

section \<open>The wallet object\<close>

record Wallet =
  net :: NetTypes
  provider :: Web3
  socketProvider :: Web3

definition initProvider :: "Wallet \<Rightarrow> string \<Rightarrow> Wallet" where
  "initProvider w u = w\<lparr>provider := u\<rparr>"

definition initSocketProvider :: "Wallet \<Rightarrow> string \<Rightarrow> Wallet" where
  "initSocketProvider w u = w\<lparr>socketProvider := u\<rparr>"

text \<open>The constructor: the fields are assigned in the order of the source.\<close>

definition constructor :: "NetTypes \<Rightarrow> Wallet" where
  "constructor n =
     (let w0 = \<lparr>net = n, provider = [], socketProvider = []\<rparr>;
          w1 = initProvider w0
                 (''https://'' @ (if n = MAIN then ''mainnet'' else ''ropsten'') @ ''.infura.io/v3/c01fb7971b8747c58f5035e4a5a7f6d2'');
          w2 = initSocketProvider w1
                 (''wss://'' @ (if n = MAIN then ''mainnet'' else ''ropsten'') @
                  ''.infura.io/ws/v3/c0c01fb7971b8747c58f5035e4a5a7f6d21fb7971b8747c58f5035e4a5a7f6d2'')
      in w2)"

definition newInstance :: "NetTypes \<Rightarrow> Wallet" where
  "newInstance n = constructor n"

definition setNet :: "Wallet \<Rightarrow> NetTypes \<Rightarrow> Wallet" where
  "setNet w n = w\<lparr>net := n\<rparr>"

definition setJsonRcpUrl :: "Wallet \<Rightarrow> string \<Rightarrow> Wallet" where
  "setJsonRcpUrl w u = initProvider w u"

definition isEth :: "TokenTypes \<Rightarrow> bool" where
  "isEth token = (token = ETH)"

section \<open>The payment monitor (subscribe)\<close>

text \<open>
  The body of the delayed callback for one hash: the transaction is fetched through
  \<open>this.provider\<close>; a rejection is caught and reported, a falsy result or recipient and
  a recipient outside \<open>vault\<close> emit nothing. \<open>vault.includes\<close> compares strings as they
  are.
\<close>

definition recheck :: "(Web3 \<Rightarrow> ledger) \<Rightarrow> Wallet \<Rightarrow> string list \<Rightarrow> string \<Rightarrow> event list" where
  "recheck rpc w vault hash =
     (case getTransaction (rpc (provider w)) hash of
        Inl e \<Rightarrow> [UNCONFIRMED e hash]
      | Inr None \<Rightarrow> []
      | Inr (Some tx) \<Rightarrow>
          (case tx_to tx of
             None \<Rightarrow> []
           | Some a \<Rightarrow> if truthy a \<and> a \<in> set vault then [NEW_PAYMENT tx] else []))"

text \<open>
  The monitor over time: a clock in milliseconds, the timers set by \<open>setTimeout\<close> with
  their due time, and the events emitted so far.
\<close>

record monitor =
  clock :: nat
  timers :: "(nat \<times> string) list"
  emitted :: "event list"

definition recheck_delay :: nat where
  "recheck_delay = 1000 * 60 * 3"

definition monitor_init :: monitor where
  "monitor_init = \<lparr>clock = 0, timers = [], emitted = []\<rparr>"

text \<open>The handler of a "data" message of the subscription.\<close>

definition on_data :: "monitor \<Rightarrow> string \<Rightarrow> monitor" where
  "on_data m hash =
     m\<lparr>emitted := emitted m @ [DATA hash],
       timers := timers m @ [(clock m + recheck_delay, hash)]\<rparr>"

text \<open>Time passes by \<open>d\<close> milliseconds: the timers then due run, in the order they were set.\<close>

definition advance :: "(Web3 \<Rightarrow> ledger) \<Rightarrow> Wallet \<Rightarrow> string list \<Rightarrow> monitor \<Rightarrow> nat \<Rightarrow> monitor" where
  "advance rpc w vault m d =
     (let t = clock m + d;
          due = filter (\<lambda>(tm, h). tm \<le> t) (timers m);
          later = filter (\<lambda>(tm, h). \<not> tm \<le> t) (timers m)
      in \<lparr>clock = t, timers = later,
          emitted = emitted m @ concat (map (\<lambda>(tm, h). recheck rpc w vault h) due)\<rparr>)"

datatype monitor_input = Hash string | Wait nat

fun subscribe :: "(Web3 \<Rightarrow> ledger) \<Rightarrow> Wallet \<Rightarrow> string list \<Rightarrow> monitor \<Rightarrow> monitor_input list \<Rightarrow> monitor" where
  "subscribe rpc w vault m [] = m"
| "subscribe rpc w vault m (Hash h # ins) = subscribe rpc w vault (on_data m h) ins"
| "subscribe rpc w vault m (Wait d # ins) = subscribe rpc w vault (advance rpc w vault m d) ins"

section \<open>Local libraries\<close>

type_synonym bytes = "8 word list"

text \<open>\<open>buf.toString("hex")\<close> and \<open>Buffer.from(s)\<close> (UTF-8) on 8-bit code units.\<close>

definition hex_of_bytes :: "bytes \<Rightarrow> string" where
  "hex_of_bytes bs = concat (map (\<lambda>b. [digit_char (unat b div 16), digit_char (unat b mod 16)]) bs)"

definition utf8_unit :: "char \<Rightarrow> bytes" where
  "utf8_unit c =
     (let n = (of_char c :: nat)
      in if n < 128 then [of_nat n] else [of_nat (192 + n div 64), of_nat (128 + n mod 64)])"

definition Buffer_from :: "string \<Rightarrow> bytes" where
  "Buffer_from s = concat (map utf8_unit s)"

record HdKey =
  hd_privateKey :: bytes
  hd_publicKey :: bytes
  hd_chainCode :: bytes

record raw_tx =
  r_nonce :: string
  r_to :: string
  r_value :: strnum
  r_gasLimit :: string
  r_gasPrice :: string
  r_data :: "string option"

text \<open>
  The libraries the wallet computes with locally, taken as they are: bip39
  (\<open>mnemonicToSeed\<close>), hdkey (\<open>fromMasterSeed\<close>, \<open>derive\<close>), ethereumjs-util
  (\<open>privateToPublic\<close>, \<open>publicToAddress\<close>, \<open>toChecksumAddress\<close>), \<open>web3.utils.toHex\<close>, the
  ABI coder behind the contract binding (\<open>transfer_abi c to value\<close> is the signature of
  the method \<open>transfer\<close> in the interface of \<open>c\<close> followed by the encoding of the two
  arguments, or the error of the coder), and ethereumjs-tx: \<open>tx_sign_serialize chain
  trxObj privKey\<close> builds the transaction for \<open>chain\<close>, signs it with the key and gives the
  hexadecimal digits of its serialisation.
\<close>

record lib =
  mnemonicToSeed :: "string \<Rightarrow> bytes"
  fromMasterSeed :: "bytes \<Rightarrow> HdKey"
  derive :: "HdKey \<Rightarrow> string \<Rightarrow> error + HdKey"
  privateToPublic :: "bytes \<Rightarrow> error + bytes"
  publicToAddress :: "bytes \<Rightarrow> error + bytes"
  toChecksumAddress :: "string \<Rightarrow> error + string"
  toHex :: "strnum \<Rightarrow> string"
  transfer_abi :: "contract \<Rightarrow> string \<Rightarrow> string \<Rightarrow> error + string"
  tx_sign_serialize :: "string \<Rightarrow> raw_tx \<Rightarrow> string \<Rightarrow> error + string"

text \<open>
  \<open>contract.methods.transfer(to, value).encodeABI()\<close> of web3-eth-contract: the signature
  followed by the encoded arguments; when that string is empty the method throws instead
  of returning it.
\<close>

definition transfer_encodeABI :: "lib \<Rightarrow> contract \<Rightarrow> string \<Rightarrow> string \<Rightarrow> error + string" where
  "transfer_encodeABI L c to_address val =
     (case transfer_abi L c to_address val of
        Inl e \<Rightarrow> Inl e
      | Inr returnValue \<Rightarrow>
          if \<not> truthy returnValue then Inl (LibError ''encodeABI'') else Inr returnValue)"

section \<open>Wallet creation\<close>

definition DEFAULT_DERIVATION_PATH :: string where
  "DEFAULT_DERIVATION_PATH = ''m/44'/60'/0'/0/0''"

text \<open>
  \<open>createWallet\<close>. \<open>fresh\<close> is the phrase that \<open>generateMnemonic()\<close> returns in this run;
  it is used when the options carry no truthy phrase.
\<close>

definition createWallet :: "lib \<Rightarrow> string \<Rightarrow> ICreateWalletOptions option \<Rightarrow> error + IWallet" where
  "createWallet L fresh opts =
     (if (case opts of None \<Rightarrow> False | Some ops \<Rightarrow> o_type ops = Some MULTISIG)
      then Inl (WalletError ''Wallet type not supported yet.'')
      else
        let mnemonics = or_else (case opts of None \<Rightarrow> None | Some ops \<Rightarrow> o_mnemonics ops) fresh;
            seed = mnemonicToSeed L mnemonics;
            root = fromMasterSeed L seed
        in case derive L root DEFAULT_DERIVATION_PATH of
             Inl e \<Rightarrow> Inl e
           | Inr addressNode \<Rightarrow>
               let privateKey =
                     (case (case opts of None \<Rightarrow> None | Some ops \<Rightarrow> o_privateKey ops) of
                        None \<Rightarrow> hd_privateKey addressNode
                      | Some k \<Rightarrow> if truthy k then Buffer_from k else hd_privateKey addressNode)
               in case privateToPublic L privateKey of
                    Inl e \<Rightarrow> Inl e
                  | Inr pubKey \<Rightarrow>
                      (case publicToAddress L pubKey of
                         Inl e \<Rightarrow> Inl e
                       | Inr a \<Rightarrow>
                           let address = ''0x'' @ hex_of_bytes a
                           in case toChecksumAddress L address of
                                Inl e \<Rightarrow> Inl e
                              | Inr checkSumAddress \<Rightarrow>
                                  Inr \<lparr>w_privateKey = hex_of_bytes privateKey,
                                       w_mnemonics = Some mnemonics,
                                       w_address = address,
                                       w_checkSumAddress = checkSumAddress,
                                       w_publicKey = hex_of_bytes (hd_publicKey addressNode)\<rparr>))"

definition isValidMnemonic :: "string \<Rightarrow> bool" where
  "isValidMnemonic phrase = (length (split_ws (trim phrase)) \<ge> 12)"

text \<open>
  \<open>generateAddress\<close>; the index is an optional number and defaults to 1. The template
  literal writes it as \<open>Number_toString\<close> does.
\<close>

definition generateAddress :: "lib \<Rightarrow> string \<Rightarrow> js_number option \<Rightarrow> error + IWallet" where
  "generateAddress L mnemonics derivationIndex0 =
     (let derivationIndex =
            (case derivationIndex0 of None \<Rightarrow> Finite False 1 0 | Some i \<Rightarrow> i)
      in if \<not> isValidMnemonic mnemonics then Inl (WalletError ''Invalid Mnemonics'')
         else
           let seed = mnemonicToSeed L mnemonics;
               root = fromMasterSeed L seed;
               masterPrivateKey = hex_of_bytes (hd_privateKey root);
               masterPublicKey = hex_of_bytes (hd_publicKey root)
           in case derive L root (''m/44'/60'/0'/0/'' @ Number_toString derivationIndex) of
                Inl e \<Rightarrow> Inl e
              | Inr addressNode \<Rightarrow>
                  (case privateToPublic L (hd_privateKey addressNode) of
                     Inl e \<Rightarrow> Inl e
                   | Inr pubKey \<Rightarrow>
                       (case publicToAddress L pubKey of
                          Inl e \<Rightarrow> Inl e
                        | Inr a \<Rightarrow>
                            let address = ''0x'' @ hex_of_bytes a
                            in case toChecksumAddress L address of
                                 Inl e \<Rightarrow> Inl e
                               | Inr checkSumAddress \<Rightarrow>
                                   Inr \<lparr>w_privateKey = masterPrivateKey,
                                        w_mnemonics = Some mnemonics,
                                        w_address = address,
                                        w_checkSumAddress = checkSumAddress,
                                        w_publicKey = masterPublicKey\<rparr>)))"

section \<open>Fees, sending and balances\<close>

definition getTokenContract :: "TokenTypes \<Rightarrow> string \<Rightarrow> string option \<Rightarrow> contract" where
  "getTokenContract token contractAddress from_opt =
     \<lparr>c_abi = token, c_address = contractAddress, c_from = from_opt\<rparr>"

definition transactionCount :: "(Web3 \<Rightarrow> ledger) \<Rightarrow> Wallet \<Rightarrow> string \<Rightarrow> error + nat" where
  "transactionCount rpc w address = getTransactionCount (rpc (provider w)) address"

definition balanceOf :: "(Web3 \<Rightarrow> ledger) \<Rightarrow> Wallet \<Rightarrow> string \<Rightarrow> string option \<Rightarrow> error + nat" where
  "balanceOf rpc w address defaultBlock =
     (case defaultBlock of
        Some b \<Rightarrow> eth_getBalance (rpc (provider w)) address (Some b)
      | None \<Rightarrow> eth_getBalance (rpc (provider w)) address None)"

definition contractBalanceOf ::
    "(Web3 \<Rightarrow> ledger) \<Rightarrow> Wallet \<Rightarrow> contract \<Rightarrow> string \<Rightarrow> error + 256 word" where
  "contractBalanceOf rpc w c address = balanceOf_call (rpc (provider w)) c address"

text \<open>
  \<open>broadcastTransaction\<close>: the promise settles on the "receipt" event only, so it stays
  pending (\<open>None\<close>) when that event never comes.
\<close>

definition broadcastTransaction ::
    "(Web3 \<Rightarrow> ledger) \<Rightarrow> Wallet \<Rightarrow> string \<Rightarrow> (error + ITransaction) option" where
  "broadcastTransaction rpc w rawTrx =
     (case sendSignedTransaction (rpc (provider w)) rawTrx of
        None \<Rightarrow> None
      | Some None \<Rightarrow> Some (Inl (WalletError ''Broadcast Transaction Failed!''))
      | Some (Some receipt) \<Rightarrow> Some (Inr receipt))"

text \<open>
  \<open>estimateFees\<close>. \<open>erc20Tokens\<close> is the token table of the module \<open>./tokens\<close>, one list for
  each network.
\<close>

definition estimateFees ::
    "(Web3 \<Rightarrow> ledger) \<Rightarrow> lib \<Rightarrow> (NetTypes \<Rightarrow> TToken list) \<Rightarrow> Wallet \<Rightarrow> ISend \<Rightarrow> error + IEstimate" where
  "estimateFees rpc L erc20Tokens w opts =
     (case transactionCount rpc w (s_from opts) of
        Inl e \<Rightarrow> Inl e
      | Inr trxCount \<Rightarrow>
          let nonce = toHex L (Num trxCount)
          in case getGasPrice (rpc (provider w)) of
               Inl e \<Rightarrow> Inl e
             | Inr gasPrice \<Rightarrow>
                 (case (case s_token opts of None \<Rightarrow> None
                        | Some token \<Rightarrow> if \<not> isEth token then Some token else None) of
                    Some token \<Rightarrow>
                      let netSupportedTokens = erc20Tokens (net w);
                          tok = find (\<lambda>t. t_symbol t = toLowerCase (token_string token))
                                  netSupportedTokens;
                          contractAddress =
                            (case tok of Some t \<Rightarrow> t_contractAddress t | None \<Rightarrow> []);
                          contract = getTokenContract token contractAddress (Some (s_from opts))
                      in (case toBN (s_amount opts) of
                            Inl e \<Rightarrow> Inl e
                          | Inr amount \<Rightarrow>
                              let decimal = (case tok of Some t \<Rightarrow> t_decimals t | None \<Rightarrow> 18);
                                  val = amount * 10 ^ decimal
                              in case transfer_encodeABI L contract (s_to opts) (int_to_dec val) of
                                   Inl e \<Rightarrow> Inl e
                                 | Inr data \<Rightarrow>
                                     (case estimateGas (rpc (provider w))
                                             \<lparr>g_nonce = nonce, g_to = contractAddress,
                                              g_value = None, g_data = Some data,
                                              g_from = s_from opts\<rparr> of
                                        Inl e \<Rightarrow> Inl e
                                      | Inr gasLimit \<Rightarrow>
                                          Inr \<lparr>e_nonce = nonce, e_to = contractAddress,
                                               e_value = Str ''0x0'',
                                               e_gasLimit = Num gasLimit,
                                               e_gasPrice = Str gasPrice,
                                               e_data = Some data\<rparr>))
                  | None \<Rightarrow>
                      (case toWei_ether (s_amount opts) of
                         Inl e \<Rightarrow> Inl e
                       | Inr wei \<Rightarrow>
                           let val = toHex L (Str wei)
                           in case estimateGas (rpc (provider w))
                                     \<lparr>g_nonce = nonce, g_to = s_to opts,
                                      g_value = Some (Str val), g_data = None,
                                      g_from = s_from opts\<rparr> of
                                Inl e \<Rightarrow> Inl e
                              | Inr gasLimit \<Rightarrow>
                                  Inr \<lparr>e_nonce = nonce, e_to = s_to opts,
                                       e_value = Str val,
                                       e_gasLimit = Num gasLimit,
                                       e_gasPrice = Str gasPrice,
                                       e_data = None\<rparr>)))"

text \<open>\<open>send\<close>: the chain is chosen by \<open>this.net\<close>, the broadcast goes through \<open>this.provider\<close>.\<close>

definition send ::
    "(Web3 \<Rightarrow> ledger) \<Rightarrow> lib \<Rightarrow> Wallet \<Rightarrow> IEstimate \<Rightarrow> string \<Rightarrow> (error + ITransaction) option" where
  "send rpc L w opts privKey =
     (let trxObj = \<lparr>r_nonce = e_nonce opts, r_to = e_to opts, r_value = e_value opts,
                    r_gasLimit = toHex L (e_gasLimit opts),
                    r_gasPrice = toHex L (e_gasPrice opts),
                    r_data = e_data opts\<rparr>
      in case tx_sign_serialize L (if net w = MAIN then ''mainnet'' else ''ropsten'') trxObj privKey of
           Inl e \<Rightarrow> Some (Inl e)
         | Inr serialized \<Rightarrow>
             let raw = ''0x'' @ serialized
             in broadcastTransaction rpc w raw)"

text \<open>
  \<open>getBalance\<close>. The token branch reads the balance through \<open>Number\<close> into a
  \<open>BigNumber\<close> and divides by \<open>10^(token?.decimals || 18)\<close>, where a count of 0 is falsy.
\<close>

definition getBalance ::
    "(Web3 \<Rightarrow> ledger) \<Rightarrow> (NetTypes \<Rightarrow> TToken list) \<Rightarrow> Wallet \<Rightarrow> IGetBalanceOptions \<Rightarrow> error + string" where
  "getBalance rpc erc20Tokens w opts =
     (case (case b_token opts of None \<Rightarrow> None
            | Some token \<Rightarrow> if \<not> isEth token then Some token else None) of
        Some optoken \<Rightarrow>
          let netSupportedTokens = erc20Tokens (net w);
              token = find (\<lambda>t. t_symbol t = toLowerCase (token_string optoken))
                        netSupportedTokens;
              contractAddress = (case token of Some t \<Rightarrow> t_contractAddress t | None \<Rightarrow> []);
              contract = getTokenContract optoken contractAddress None
          in (case contractBalanceOf rpc w contract (b_address opts) of
                Inl e \<Rightarrow> Inl e
              | Inr raw \<Rightarrow>
                  let bigNumberBalance = js_String_value (js_Number (unat raw));
                      exponent =
                        (case token of
                           None \<Rightarrow> 18
                         | Some t \<Rightarrow> if t_decimals t \<noteq> 0 then t_decimals t else 18)
                  in Inr (BigNumber_toString (dividedBy_pow10 bigNumberBalance exponent)))
      | None \<Rightarrow>
          (case balanceOf rpc w (b_address opts) None of
             Inl e \<Rightarrow> Inl e
           | Inr wei \<Rightarrow> Inr (fromWei_ether wei)))"

section \<open>Notions used to state the properties\<close>

text \<open>
  The number that a decimal numeral denotes: an optional minus sign, the digits of the
  whole part, and after an optional point the digits of the fraction.
\<close>

definition decimal_value :: "string \<Rightarrow> rat" where
  "decimal_value s =
     (let negative = (take 1 s = ''-'');
          body = (if negative then drop 1 s else s);
          whole = takeWhile (\<lambda>c. c \<noteq> CHR ''.'') body;
          fraction = drop 1 (dropWhile (\<lambda>c. c \<noteq> CHR ''.'') body);
          magnitude = of_nat (base_val 10 whole) + of_nat (base_val 10 fraction) / 10 ^ length fraction
      in if negative then - magnitude else magnitude)"

text \<open>The time that passes during a stream of inputs of the monitor.\<close>

fun elapsed :: "monitor_input list \<Rightarrow> nat" where
  "elapsed [] = 0"
| "elapsed (Hash h # ins) = elapsed ins"
| "elapsed (Wait d # ins) = d + elapsed ins"

section \<open>An example environment\<close>

text \<open>
  A small environment on which the model runs: a node with fixed answers, a token table,
  and stand-ins for the cryptographic libraries (they are not the real functions, only
  functions of the same shape).
\<close>

fun nat_to_hex :: "nat \<Rightarrow> string" where
  "nat_to_hex n =
     (if n < 16 then [digit_char n] else nat_to_hex (n div 16) @ [digit_char (n mod 16)])"

declare nat_to_hex.simps [simp del]

definition demo_tx :: ITransaction where
  "demo_tx =
     \<lparr>tx_blockHash = ''0xb1'', tx_blockNumber = 100, tx_from = ''0x00000000000000000000000000000000000000ff'', tx_gas = 21000,
      tx_gasPrice = Str ''20000000000'', tx_hash = ''0xaa'', tx_input = ''0x'', tx_nonce = 3,
      tx_to = Some ''0xabc'', tx_transactionIndex = 0, tx_value = Str ''1000''\<rparr>"

definition demo_node :: ledger where
  "demo_node =
     \<lparr>getTransactionCount = (\<lambda>a. Inr 7),
      getGasPrice = Inr ''20000000000'',
      estimateGas = (\<lambda>r. Inr 21000),
      eth_getBalance = (\<lambda>a b. Inr 1500000000000000000),
      getTransaction =
        (\<lambda>h. if h = ''0xaa'' then Inr (Some demo_tx)
             else if h = ''0xbb'' then Inl (RpcError ''timeout'')
             else Inr None),
      balanceOf_call = (\<lambda>c a. Inr 10000000000000001),
      sendSignedTransaction = (\<lambda>r. Some (Some (demo_tx\<lparr>tx_input := r\<rparr>)))\<rparr>"

text \<open>A node that rejects every request and never sends a receipt.\<close>

definition offline_node :: ledger where
  "offline_node =
     \<lparr>getTransactionCount = (\<lambda>a. Inl (RpcError ''offline'')),
      getGasPrice = Inl (RpcError ''offline''),
      estimateGas = (\<lambda>r. Inl (RpcError ''offline'')),
      eth_getBalance = (\<lambda>a b. Inl (RpcError ''offline'')),
      getTransaction = (\<lambda>h. Inl (RpcError ''offline'')),
      balanceOf_call = (\<lambda>c a. Inl (RpcError ''offline'')),
      sendSignedTransaction = (\<lambda>r. None)\<rparr>"

text \<open>The node of the main network marks its receipts with another block hash.\<close>

definition main_node :: ledger where
  "main_node =
     demo_node\<lparr>sendSignedTransaction :=
       (\<lambda>r. Some (Some (demo_tx\<lparr>tx_blockHash := ''0xm1'', tx_input := r\<rparr>)))\<rparr>"

text \<open>Only the two HTTP endpoints are served.\<close>

definition demo_rpc :: "Web3 \<Rightarrow> ledger" where
  "demo_rpc u =
     (if u = ''https://ropsten.infura.io/v3/c01fb7971b8747c58f5035e4a5a7f6d2'' then demo_node
      else if u = ''https://mainnet.infura.io/v3/c01fb7971b8747c58f5035e4a5a7f6d2'' then main_node
      else offline_node)"

definition demo_estimate :: IEstimate where
  "demo_estimate =
     \<lparr>e_nonce = ''0x7'', e_to = ''0xabc'', e_value = Str ''0x14d1120d7b160000'',
      e_gasLimit = Num 21000, e_gasPrice = Str ''20000000000'', e_data = None\<rparr>"

definition demo_tokens :: "NetTypes \<Rightarrow> TToken list" where
  "demo_tokens n =
     [\<lparr>t_symbol = ''usdt'', t_name = ''Tether'',
       t_contractAddress =
         (if n = MAIN then ''0xdac17f958d2ee523a2206206994597c13d831ec7''
          else ''0x110a13fc3efe6a245b50102d2d79b3e76125ae83''),
       t_decimals = 6, t_description = [], t_url = []\<rparr>,
      \<lparr>t_symbol = ''dai'', t_name = ''Dai'',
       t_contractAddress =
         (if n = MAIN then ''0x6b175474e89094c44da98b954eedeac495271d0f''
          else ''0xad6d458402f60fd3bd25163575031acdce07538d''),
       t_decimals = 18, t_description = [], t_url = []\<rparr>]"

definition demo_lib :: lib where
  "demo_lib =
     \<lparr>mnemonicToSeed = (\<lambda>m. Buffer_from (take 4 m)),
      fromMasterSeed = (\<lambda>seed. \<lparr>hd_privateKey = seed, hd_publicKey = rev seed, hd_chainCode = []\<rparr>),
      derive =
        (\<lambda>node path.
           Inr \<lparr>hd_privateKey = hd_privateKey node @ Buffer_from (drop 15 path),
                hd_publicKey = Buffer_from (drop 15 path) @ hd_publicKey node,
                hd_chainCode = []\<rparr>),
      privateToPublic = (\<lambda>k. if k = [] then Inl (LibError ''privateToPublic'') else Inr (rev k)),
      publicToAddress = (\<lambda>p. Inr (take 20 p)),
      toChecksumAddress = (\<lambda>a. Inr a),
      toHex =
        (\<lambda>v. case v of
               Num n \<Rightarrow> ''0x'' @ nat_to_hex n
             | Str s \<Rightarrow> if take 2 s = ''0x'' then s else ''0x'' @ nat_to_hex (base_val 10 s)),
      transfer_abi = (\<lambda>c to v. Inr (''0xa9059cbb'' @ drop 2 to @ nat_to_hex (base_val 10 v))),
      tx_sign_serialize = (\<lambda>chain t k. Inr (chain @ r_gasLimit t))\<rparr>"

definition demo_mnemonic :: string where
  "demo_mnemonic = ''abandon abandon abandon abandon abandon abandon abandon abandon abandon abandon abandon about''"

definition demo_options :: ICreateWalletOptions where
  "demo_options = \<lparr>o_type = None, o_privateKey = None, o_mnemonics = Some demo_mnemonic\<rparr>"

definition demo_send :: ISend where
  "demo_send = \<lparr>s_from = ''0x00000000000000000000000000000000000000ff'', s_to = ''0x0000000000000000000000000000000000000abc'', s_amount = ''1.5'', s_token = None\<rparr>"

section \<open>Properties\<close>

subsection \<open>The payment monitor\<close>

text \<open>One hash observed on a fresh monitor, then the delay: the log is \<open>DATA\<close> and the recheck.\<close>

lemma run_one_hash:
  "emitted (subscribe rpc w vault monitor_init [Hash h, Wait recheck_delay])
     = DATA h # recheck rpc w vault h"
  by (simp add: on_data_def advance_def monitor_init_def)

lemma provider_TEST [simp]:
  "provider (constructor TEST) = ''https://ropsten.infura.io/v3/c01fb7971b8747c58f5035e4a5a7f6d2''"
  by (simp add: constructor_def initProvider_def initSocketProvider_def)

lemma demo_rpc_TEST [simp]:
  "demo_rpc ''https://ropsten.infura.io/v3/c01fb7971b8747c58f5035e4a5a7f6d2'' = demo_node"
  by (simp add: demo_rpc_def)

lemma demo_getTransaction [simp]:
  "getTransaction demo_node h =
     (if h = ''0xaa'' then Inr (Some demo_tx)
      else if h = ''0xbb'' then Inl (RpcError ''timeout'') else Inr None)"
  by (simp add: demo_node_def)

lemma demo_tx_to [simp]: "tx_to demo_tx = Some ''0xabc''"
  by (simp add: demo_tx_def)

text \<open>
  Claim C7, as stated, fails: a hash that the node does not know is answered with \<open>null\<close>,
  which is not a rejection; the guard \<open>tx && ...\<close> then emits nothing, and the log for that
  hash is \<open>DATA\<close> alone.
\<close>

theorem unconfirmed_not_found_counterexample:
  "getTransaction (demo_rpc (provider (constructor TEST))) ''0xcc'' = Inr None
   \<and> emitted (subscribe demo_rpc (constructor TEST) [''0xabc''] monitor_init
                [Hash ''0xcc'', Wait recheck_delay]) = [DATA ''0xcc'']"
  using run_one_hash [of demo_rpc "constructor TEST" "[''0xabc'']" "''0xcc''"]
  by (simp add: recheck_def)

text \<open>
  What observing a hash adds to a run. Take any state of the monitor and any further
  inputs; observe \<open>h\<close> first. The log is the log without that observation, with
  \<open>DATA h\<close> put in at the point of the observation and, when the delay passes during the
  further inputs, the events of the recheck of \<open>h\<close> put in where its timer runs. Nothing
  else changes.
\<close>

lemma subscribe_append:
  "subscribe rpc w vault m (xs @ ys) = subscribe rpc w vault (subscribe rpc w vault m xs) ys"
proof (induction xs arbitrary: m)
  case Nil
  then show ?case by simp
next
  case (Cons x xs)
  then show ?case by (cases x) simp_all
qed

lemma same_suffix:
  assumes "clock m1 = clock m2" and "timers m1 = timers m2"
  shows "\<exists>S. emitted (subscribe rpc w vault m1 ins) = emitted m1 @ S
           \<and> emitted (subscribe rpc w vault m2 ins) = emitted m2 @ S"
  using assms
proof (induction ins arbitrary: m1 m2)
  case Nil
  then show ?case by simp
next
  case (Cons x ins)
  show ?case
  proof (cases x)
    case (Hash h)
    have c: "clock (on_data m1 h) = clock (on_data m2 h)"
      and t: "timers (on_data m1 h) = timers (on_data m2 h)"
      using Cons.prems by (simp_all add: on_data_def)
    from Cons.IH [OF c t] obtain S where
      "emitted (subscribe rpc w vault (on_data m1 h) ins) = emitted (on_data m1 h) @ S"
      "emitted (subscribe rpc w vault (on_data m2 h) ins) = emitted (on_data m2 h) @ S"
      by blast
    then show ?thesis using Hash by (simp add: on_data_def)
  next
    case (Wait d)
    let ?a1 = "advance rpc w vault m1 d" and ?a2 = "advance rpc w vault m2 d"
    have c: "clock ?a1 = clock ?a2" and t: "timers ?a1 = timers ?a2"
      using Cons.prems by (simp_all add: advance_def Let_def)
    from Cons.IH [OF c t] obtain S where
      "emitted (subscribe rpc w vault ?a1 ins) = emitted ?a1 @ S"
      "emitted (subscribe rpc w vault ?a2 ins) = emitted ?a2 @ S"
      by blast
    then show ?thesis using Wait Cons.prems by (simp add: advance_def Let_def)
  qed
qed

lemma pending_timer_effect:
  assumes "clock m1 = clock m2" and "clock m1 < due"
    and "timers m1 = T1 @ (due, h) # T2" and "timers m2 = T1 @ T2"
    and "emitted m1 = P @ DATA h # A" and "emitted m2 = P @ A"
  shows "\<exists>A' B. emitted (subscribe rpc w vault m2 ins) = P @ A' @ B
           \<and> emitted (subscribe rpc w vault m1 ins)
               = P @ DATA h # A' @ (if due \<le> clock m1 + elapsed ins
                                     then recheck rpc w vault h else []) @ B"
  using assms
proof (induction ins arbitrary: m1 m2 T1 T2 A)
  case Nil
  then show ?case by auto
next
  case (Cons x ins)
  show ?case
  proof (cases x)
    case (Hash h')
    have c: "clock (on_data m1 h') = clock (on_data m2 h')"
      and l: "clock (on_data m1 h') < due"
      and t1: "timers (on_data m1 h') = T1 @ (due, h) # (T2 @ [(clock m1 + recheck_delay, h')])"
      and t2: "timers (on_data m2 h') = T1 @ (T2 @ [(clock m1 + recheck_delay, h')])"
      and e1: "emitted (on_data m1 h') = P @ DATA h # (A @ [DATA h'])"
      and e2: "emitted (on_data m2 h') = P @ (A @ [DATA h'])"
      using Cons.prems by (simp_all add: on_data_def)
    from Cons.IH [OF c l t1 t2 e1 e2] show ?thesis
      using Hash by (simp add: on_data_def)
  next
    case (Wait d)
    let ?t = "clock m1 + d"
    let ?a1 = "advance rpc w vault m1 d" and ?a2 = "advance rpc w vault m2 d"
    let ?due = "\<lambda>T. filter (\<lambda>(tm, h). tm \<le> ?t) T"
    let ?later = "\<lambda>T. filter (\<lambda>(tm, h). \<not> tm \<le> ?t) T"
    let ?run = "\<lambda>T. concat (map (\<lambda>(tm, h). recheck rpc w vault h) (?due T))"
    show ?thesis
    proof (cases "due \<le> ?t")
      case False
      have c: "clock ?a1 = clock ?a2"
        and l: "clock ?a1 < due"
        and t1: "timers ?a1 = ?later T1 @ (due, h) # ?later T2"
        and t2: "timers ?a2 = ?later T1 @ ?later T2"
        and e1: "emitted ?a1 = P @ DATA h # (A @ ?run T1 @ ?run T2)"
        and e2: "emitted ?a2 = P @ (A @ ?run T1 @ ?run T2)"
        using Cons.prems False by (simp_all add: advance_def Let_def)
      have k: "clock ?a1 = ?t" by (simp add: advance_def Let_def)
      from Cons.IH [OF c l t1 t2 e1 e2] show ?thesis
        using Wait k by (simp add: add.assoc)
    next
      case True
      have c: "clock ?a1 = clock ?a2" and t: "timers ?a1 = timers ?a2"
        and e1: "emitted ?a1 = P @ DATA h # (A @ ?run T1) @ recheck rpc w vault h @ ?run T2"
        and e2: "emitted ?a2 = P @ (A @ ?run T1) @ ?run T2"
        using Cons.prems True by (simp_all add: advance_def Let_def)
      from same_suffix [OF c t, of rpc w vault ins] obtain S where
        s1: "emitted (subscribe rpc w vault ?a1 ins) = emitted ?a1 @ S"
        and s2: "emitted (subscribe rpc w vault ?a2 ins) = emitted ?a2 @ S"
        by blast
      have a: "emitted (subscribe rpc w vault m2 (x # ins)) = P @ (A @ ?run T1) @ (?run T2 @ S)"
        using Wait s2 e2 by simp
      have b: "emitted (subscribe rpc w vault m1 (x # ins))
          = P @ DATA h # (A @ ?run T1) @ recheck rpc w vault h @ (?run T2 @ S)"
        using Wait s1 e1 by simp
      have d: "due \<le> clock m1 + elapsed (x # ins)"
        using True Wait by simp
      show ?thesis
      proof (intro exI conjI)
        show "emitted (subscribe rpc w vault m2 (x # ins)) = P @ (A @ ?run T1) @ (?run T2 @ S)"
          by (rule a)
        show "emitted (subscribe rpc w vault m1 (x # ins))
          = P @ DATA h # (A @ ?run T1) @ (if due \<le> clock m1 + elapsed (x # ins)
                                     then recheck rpc w vault h else []) @ (?run T2 @ S)"
          using b d by simp
      qed
    qed
  qed
qed

lemma observe_hash_effect:
  "\<exists>A B. emitted (subscribe rpc w vault m post) = emitted m @ A @ B
     \<and> emitted (subscribe rpc w vault m (Hash h # post))
         = emitted m @ DATA h # A @ (if recheck_delay \<le> elapsed post
                                       then recheck rpc w vault h else []) @ B"
proof -
  have c: "clock (on_data m h) = clock m"
    and l: "clock (on_data m h) < clock m + recheck_delay"
    and t1: "timers (on_data m h) = timers m @ (clock m + recheck_delay, h) # []"
    and t2: "timers m = timers m @ []"
    and e1: "emitted (on_data m h) = emitted m @ DATA h # []"
    and e2: "emitted m = emitted m @ []"
    by (simp_all add: on_data_def recheck_delay_def)
  from pending_timer_effect [OF c l t1 t2 e1 e2, of rpc w vault post]
  show ?thesis by (simp add: on_data_def)
qed

lemmas monitor_eval =
  on_data_def advance_def recheck_def monitor_init_def recheck_delay_def truthy_def Let_def

text \<open>
  Claim C7, amended. In any stream of inputs, \<open>pre\<close> before the hash \<open>h\<close> is observed and
  \<open>post\<close> after it: when the retrieval of the recheck is rejected with an error \<open>e\<close> and
  the delay passes during \<open>post\<close>, the observation adds exactly \<open>DATA h\<close> and, later,
  \<open>UNCONFIRMED e h\<close> to the log; when the retrieval answers no transaction, it adds
  \<open>DATA h\<close> and nothing else.
\<close>

theorem unconfirmed_on_rejection:
  "\<exists>A B.
     emitted (subscribe rpc w vault monitor_init (pre @ post))
       = emitted (subscribe rpc w vault monitor_init pre) @ A @ B
     \<and> (recheck_delay \<le> elapsed post \<and> getTransaction (rpc (provider w)) h = Inl e \<longrightarrow>
          emitted (subscribe rpc w vault monitor_init (pre @ Hash h # post))
            = emitted (subscribe rpc w vault monitor_init pre) @ DATA h # A @ UNCONFIRMED e h # B)
     \<and> (getTransaction (rpc (provider w)) h = Inr None \<longrightarrow>
          emitted (subscribe rpc w vault monitor_init (pre @ Hash h # post))
            = emitted (subscribe rpc w vault monitor_init pre) @ DATA h # A @ B)"
proof -
  let ?m = "subscribe rpc w vault monitor_init pre"
  from observe_hash_effect [of rpc w vault ?m post h] obtain A B where
    a: "emitted (subscribe rpc w vault ?m post) = emitted ?m @ A @ B"
    and b: "emitted (subscribe rpc w vault ?m (Hash h # post))
         = emitted ?m @ DATA h # A @ (if recheck_delay \<le> elapsed post
                                       then recheck rpc w vault h else []) @ B"
    by blast
  have r1: "recheck rpc w vault h = [UNCONFIRMED e h]"
    if "getTransaction (rpc (provider w)) h = Inl e"
    using that by (simp add: recheck_def)
  have r2: "recheck rpc w vault h = []"
    if "getTransaction (rpc (provider w)) h = Inr None"
    using that by (simp add: recheck_def)
  show ?thesis
  proof (intro exI conjI impI)
    show "emitted (subscribe rpc w vault monitor_init (pre @ post)) = emitted ?m @ A @ B"
      using a by (simp add: subscribe_append)
    show "emitted (subscribe rpc w vault monitor_init (pre @ Hash h # post))
            = emitted ?m @ DATA h # A @ UNCONFIRMED e h # B"
      if "recheck_delay \<le> elapsed post \<and> getTransaction (rpc (provider w)) h = Inl e"
      using that b r1 by (simp add: subscribe_append)
    show "emitted (subscribe rpc w vault monitor_init (pre @ Hash h # post))
            = emitted ?m @ DATA h # A @ B"
      if "getTransaction (rpc (provider w)) h = Inr None"
      using that b r2 by (simp add: subscribe_append)
  qed
qed

theorem unconfirmed_on_rejection_witness:
  "recheck_delay \<le> elapsed [Wait 100000, Hash ''0xaa'', Wait 100000]
   \<and> getTransaction (demo_rpc (provider (constructor TEST))) ''0xbb'' = Inl (RpcError ''timeout'')
   \<and> getTransaction (demo_rpc (provider (constructor TEST))) ''0xcc'' = Inr None
   \<and> emitted (subscribe demo_rpc (constructor TEST) [''0xabc''] monitor_init
         ([Hash ''0xaa''] @ [Wait 100000, Hash ''0xaa'', Wait 100000]))
       = [DATA ''0xaa'', DATA ''0xaa'', NEW_PAYMENT demo_tx]
   \<and> emitted (subscribe demo_rpc (constructor TEST) [''0xabc''] monitor_init
         ([Hash ''0xaa''] @ Hash ''0xbb'' # [Wait 100000, Hash ''0xaa'', Wait 100000]))
       = [DATA ''0xaa'', DATA ''0xbb'', DATA ''0xaa'', NEW_PAYMENT demo_tx,
          UNCONFIRMED (RpcError ''timeout'') ''0xbb'']
   \<and> emitted (subscribe demo_rpc (constructor TEST) [''0xabc''] monitor_init
         ([Hash ''0xaa''] @ Hash ''0xcc'' # [Wait 100000, Hash ''0xaa'', Wait 100000]))
       = [DATA ''0xaa'', DATA ''0xcc'', DATA ''0xaa'', NEW_PAYMENT demo_tx]"
  using unconfirmed_on_rejection [of demo_rpc "constructor TEST" "[''0xabc'']" "[Hash ''0xaa'']"
           "[Wait 100000, Hash ''0xaa'', Wait 100000]" "''0xbb''" "RpcError ''timeout''"]
        unconfirmed_on_rejection [of demo_rpc "constructor TEST" "[''0xabc'']" "[Hash ''0xaa'']"
           "[Wait 100000, Hash ''0xaa'', Wait 100000]" "''0xcc''" "RpcError ''timeout''"]
  by (simp add: monitor_eval)



text \<open>
  Claim C9: membership in the watch set compares the strings as they are. A recipient that
  equals a watched address up to letter case, and is not itself in the watch set, gives no
  \<open>NEW_PAYMENT\<close>: the log is \<open>DATA hash\<close> alone.
\<close>

theorem watch_set_case_sensitive:
  assumes "getTransaction (rpc (provider w)) h = Inr (Some tx)"
    and "tx_to tx = Some a"
    and "v \<in> set vault"
    and "toLowerCase a = toLowerCase v"
    and "a \<notin> set vault"
  shows "emitted (subscribe rpc w vault monitor_init [Hash h, Wait recheck_delay]) = [DATA h]"
  using assms run_one_hash [of rpc w vault h] by (simp add: recheck_def)

theorem watch_set_case_sensitive_witness:
  "getTransaction (demo_rpc (provider (constructor TEST))) ''0xaa'' = Inr (Some demo_tx)
   \<and> tx_to demo_tx = Some ''0xabc''
   \<and> ''0xABC'' \<in> set [''0xABC'']
   \<and> toLowerCase ''0xabc'' = toLowerCase ''0xABC''
   \<and> ''0xabc'' \<notin> set [''0xABC'']
   \<and> emitted (subscribe demo_rpc (constructor TEST) [''0xABC''] monitor_init
                [Hash ''0xaa'', Wait recheck_delay]) = [DATA ''0xaa'']"
  using watch_set_case_sensitive [of demo_rpc "constructor TEST" "''0xaa''" demo_tx "''0xabc''"
           "''0xABC''" "[''0xABC'']"]
  by (simp add: toLowerCase_def lower_char_def)

subsection \<open>The network setter\<close>

text \<open>
  Claim C10: \<open>setNet\<close> assigns the field \<open>net\<close> and leaves \<open>provider\<close> and \<open>socketProvider\<close> as
  they were; a \<open>send\<close> after it signs for the chain of the new network and hands the raw
  transaction to the node behind the provider that the wallet had before the call.
\<close>

theorem setNet_frame:
  "net (setNet w n) = n
   \<and> provider (setNet w n) = provider w
   \<and> socketProvider (setNet w n) = socketProvider w
   \<and> send rpc L (setNet w n) est k =
       (case tx_sign_serialize L (if n = MAIN then ''mainnet'' else ''ropsten'')
               \<lparr>r_nonce = e_nonce est, r_to = e_to est, r_value = e_value est,
                r_gasLimit = toHex L (e_gasLimit est), r_gasPrice = toHex L (e_gasPrice est),
                r_data = e_data est\<rparr> k of
          Inl e \<Rightarrow> Some (Inl e)
        | Inr serialized \<Rightarrow>
            (case sendSignedTransaction (rpc (provider w)) (''0x'' @ serialized) of
               None \<Rightarrow> None
             | Some None \<Rightarrow> Some (Inl (WalletError ''Broadcast Transaction Failed!''))
             | Some (Some receipt) \<Rightarrow> Some (Inr receipt)))"
  by (simp add: setNet_def send_def broadcastTransaction_def split: sum.splits)

lemma provider_MAIN [simp]:
  "provider (constructor MAIN) = ''https://mainnet.infura.io/v3/c01fb7971b8747c58f5035e4a5a7f6d2''"
  by (simp add: constructor_def initProvider_def initSocketProvider_def)

lemma demo_rpc_MAIN [simp]:
  "demo_rpc ''https://mainnet.infura.io/v3/c01fb7971b8747c58f5035e4a5a7f6d2'' = main_node"
  by (simp add: demo_rpc_def)

theorem setNet_frame_witness:
  "net (setNet (constructor TEST) MAIN) = MAIN
   \<and> provider (setNet (constructor TEST) MAIN)
       = ''https://ropsten.infura.io/v3/c01fb7971b8747c58f5035e4a5a7f6d2''
   \<and> socketProvider (setNet (constructor TEST) MAIN)
       = ''wss://ropsten.infura.io/ws/v3/c0c01fb7971b8747c58f5035e4a5a7f6d21fb7971b8747c58f5035e4a5a7f6d2''
   \<and> send demo_rpc demo_lib (setNet (constructor TEST) MAIN) demo_estimate ''0f''
       = Some (Inr (demo_tx\<lparr>tx_input := ''0xmainnet0x5208''\<rparr>))
   \<and> net (setNet (constructor MAIN) TEST) = TEST
   \<and> provider (setNet (constructor MAIN) TEST)
       = ''https://mainnet.infura.io/v3/c01fb7971b8747c58f5035e4a5a7f6d2''
   \<and> socketProvider (setNet (constructor MAIN) TEST)
       = ''wss://mainnet.infura.io/ws/v3/c0c01fb7971b8747c58f5035e4a5a7f6d21fb7971b8747c58f5035e4a5a7f6d2''
   \<and> send demo_rpc demo_lib (setNet (constructor MAIN) TEST) demo_estimate ''0f''
       = Some (Inr (demo_tx\<lparr>tx_blockHash := ''0xm1'', tx_input := ''0xropsten0x5208''\<rparr>))"
  using setNet_frame [of "constructor TEST" MAIN demo_rpc demo_lib demo_estimate "''0f''"]
        setNet_frame [of "constructor MAIN" TEST demo_rpc demo_lib demo_estimate "''0f''"]
  by (simp add: constructor_def initProvider_def initSocketProvider_def
      demo_lib_def demo_estimate_def demo_node_def main_node_def nat_to_hex.simps digit_char_def)

subsection \<open>The validation of a phrase counts its words\<close>

lemma length_words_acc_cur:
  "cur \<noteq> [] \<Longrightarrow> cur' \<noteq> [] \<Longrightarrow> length (words_acc cur cs) = length (words_acc cur' cs)"
proof (induction cs arbitrary: cur cur')
  case Nil
  then show ?case by simp
next
  case (Cons c cs)
  from Cons.IH [of "c # cur" "c # cur'"] Cons.prems show ?case by simp
qed

lemma length_split_ws_from_cur:
  "length (split_ws_from sep cur cs) = length (split_ws_from sep cur' cs)"
proof (induction cs arbitrary: sep cur cur')
  case Nil
  then show ?case by simp
next
  case (Cons c cs)
  from Cons.IH [of True cur cur'] Cons.IH [of False "c # cur" "c # cur'"]
  show ?case by simp
qed

lemma split_words_length:
  "(cs \<noteq> [] \<longrightarrow> \<not> is_ws (last cs)) \<Longrightarrow>
   (cur \<noteq> [] \<longrightarrow> length (split_ws_from False cur cs) = length (words_acc cur cs))
   \<and> (cs \<noteq> [] \<longrightarrow> length (split_ws_from True cur cs) = length (words_acc [] cs))"
proof (induction cs arbitrary: cur)
  case Nil
  then show ?case by simp
next
  case (Cons c cs)
  have tl: "cs \<noteq> [] \<longrightarrow> \<not> is_ws (last cs)"
    using Cons.prems by auto
  note IH = Cons.IH [OF tl]
  show ?case
  proof (cases "is_ws c")
    case True
    then have ne: "cs \<noteq> []" using Cons.prems by auto
    with True IH [of "[]"] IH [of cur] show ?thesis by auto
  next
    case False
    with IH [of "c # cur"] length_words_acc_cur [of "c # cur" "[c]" cs]
    show ?thesis by auto
  qed
qed

lemma words_acc_snoc_ws:
  "is_ws c \<Longrightarrow> words_acc cur (xs @ [c]) = words_acc cur xs"
  by (induction xs arbitrary: cur) auto

lemma ws_words_drop_leading: "ws_words (dropWhile is_ws s) = ws_words s"
  by (induction s) (auto simp: ws_words_def)

lemma ws_words_drop_trailing: "ws_words (rev (dropWhile is_ws (rev s))) = ws_words s"
  by (induction s rule: rev_induct) (auto simp: ws_words_def words_acc_snoc_ws)

lemma ws_words_trim: "ws_words (trim s) = ws_words s"
  by (simp add: trim_def ws_words_drop_trailing ws_words_drop_leading)


lemma trim_last: "trim s \<noteq> [] \<Longrightarrow> \<not> is_ws (last (trim s))"
proof -
  assume ne: "trim s \<noteq> []"
  have "last (trim s) = hd (dropWhile is_ws (rev (dropWhile is_ws s)))"
    using ne by (simp add: trim_def last_rev)
  moreover have "dropWhile is_ws (rev (dropWhile is_ws s)) \<noteq> []"
    using ne by (simp add: trim_def)
  ultimately show ?thesis
    using hd_dropWhile by metis
qed

lemma trim_hd: "trim s \<noteq> [] \<Longrightarrow> \<not> is_ws (hd (trim s))"
proof -
  assume ne: "trim s \<noteq> []"
  let ?t = "dropWhile is_ws s"
  have t: "?t \<noteq> []" using ne by (cases "?t = []") (simp_all add: trim_def)
  then have h: "\<not> is_ws (hd ?t)" by (rule hd_dropWhile)
  have "\<exists>ys. ?t = trim s @ ys"
  proof -
    have "rev ?t = takeWhile is_ws (rev ?t) @ dropWhile is_ws (rev ?t)" by simp
    then have "?t = rev (dropWhile is_ws (rev ?t)) @ rev (takeWhile is_ws (rev ?t))"
      by (metis rev_append rev_rev_ident)
    then show ?thesis by (auto simp: trim_def)
  qed
  then obtain ys where "?t = trim s @ ys" ..
  with ne have "hd ?t = hd (trim s)" by (metis hd_append2)
  with h show ?thesis by simp
qed

lemma split_ws_trim_length:
  "length (split_ws (trim s)) = max 1 (length (ws_words s))"
proof (cases "trim s")
  case Nil
  then have "ws_words s = []"
    using ws_words_trim [of s] by (simp add: ws_words_def)
  with Nil show ?thesis by (simp add: split_ws_def)
next
  case (Cons c cs)
  then have c: "\<not> is_ws c" using trim_hd [of s] by simp
  have l: "cs \<noteq> [] \<longrightarrow> \<not> is_ws (last cs)"
    using trim_last [of s] Cons by auto
  have "length (split_ws_from False [c] cs) = length (words_acc [c] cs)"
    using split_words_length [OF l, of "[c]"] by simp
  then have eq: "length (split_ws (trim s)) = length (ws_words (trim s))"
    using Cons c by (simp add: split_ws_def ws_words_def)
  have "cur \<noteq> [] \<Longrightarrow> length (words_acc cur cs) \<ge> 1" for cur
    by (induction cs arbitrary: cur) auto
  then have "length (words_acc [c] cs) \<ge> 1" by simp
  then have "length (ws_words (trim s)) \<ge> 1"
    using Cons c by (simp add: ws_words_def)
  with eq show ?thesis by (simp add: ws_words_trim)
qed

lemma isValidMnemonic_words: "isValidMnemonic m \<longleftrightarrow> 12 \<le> length (ws_words m)"
  by (simp add: isValidMnemonic_def split_ws_trim_length max_def)

subsection \<open>Wallet creation\<close>

lemmas demo_eval =
  demo_options_def demo_lib_def demo_mnemonic_def or_else_def
  truthy_def DEFAULT_DERIVATION_PATH_def Buffer_from_def utf8_unit_def hex_of_bytes_def
  digit_char_def Let_def

lemma demo_createWallet:
  "createWallet demo_lib ''zoo zoo'' (Some demo_options) =
     Inr \<lparr>w_privateKey = ''6162616e30'', w_mnemonics = Some demo_mnemonic,
          w_address = ''0x306e616261'', w_checkSumAddress = ''0x306e616261'',
          w_publicKey = ''306e616261''\<rparr>"
  by (simp add: createWallet_def demo_options_def demo_lib_def demo_mnemonic_def or_else_def
      truthy_def DEFAULT_DERIVATION_PATH_def Buffer_from_def utf8_unit_def hex_of_bytes_def
      digit_char_def Let_def)

lemma demo_createWallet_raw:
  "createWallet demo_lib ''zoo zoo'' (Some (demo_options\<lparr>o_privateKey := Some ''4c''\<rparr>)) =
     Inr \<lparr>w_privateKey = ''3463'', w_mnemonics = Some demo_mnemonic,
          w_address = ''0x6334'', w_checkSumAddress = ''0x6334'',
          w_publicKey = ''306e616261''\<rparr>"
  by (simp add: createWallet_def demo_eval)

lemma demo_createWallet_raw_other:
  "createWallet demo_lib ''zoo zoo''
      (Some \<lparr>o_type = Some HD, o_privateKey = Some ''4c'', o_mnemonics = Some ''legal winner''\<rparr>) =
     Inr \<lparr>w_privateKey = ''3463'', w_mnemonics = Some ''legal winner'',
          w_address = ''0x6334'', w_checkSumAddress = ''0x6334'',
          w_publicKey = ''306167656c''\<rparr>"
  by (simp add: createWallet_def demo_eval)

lemma demo_words: "length (ws_words demo_mnemonic) = 12"
  by (simp add: ws_words_def demo_mnemonic_def is_ws_def)

text \<open>
  Claim C4: with a phrase \<open>m\<close> given in the options (a non-empty string, as every valid
  phrase is), two runs of \<open>createWallet\<close> give the same result, whatever the generator of
  fresh phrases would have produced in each run: the same address, public key and
  private key, or the same error.
\<close>

theorem createWallet_deterministic:
  assumes "o_mnemonics opts = Some m" and "truthy m"
  shows "createWallet L fresh1 (Some opts) = createWallet L fresh2 (Some opts)"
  using assms by (simp add: createWallet_def or_else_def)

theorem createWallet_deterministic_witness:
  "o_mnemonics demo_options = Some demo_mnemonic \<and> truthy demo_mnemonic
   \<and> createWallet demo_lib ''zoo zoo'' (Some demo_options)
       = createWallet demo_lib ''legal winner'' (Some demo_options)
   \<and> createWallet demo_lib ''legal winner'' (Some demo_options) =
       Inr \<lparr>w_privateKey = ''6162616e30'', w_mnemonics = Some demo_mnemonic,
            w_address = ''0x306e616261'', w_checkSumAddress = ''0x306e616261'',
            w_publicKey = ''306e616261''\<rparr>"
proof -
  have h1: "o_mnemonics demo_options = Some demo_mnemonic"
    by (simp add: demo_options_def)
  have h2: "truthy demo_mnemonic"
    by (simp add: truthy_def demo_mnemonic_def)
  note eq = createWallet_deterministic [OF h1 h2, of demo_lib "''zoo zoo''" "''legal winner''"]
  with h1 h2 demo_createWallet show ?thesis by simp
qed

text \<open>
  An empty phrase in the options is falsy: the generator's phrase is used, and two runs
  differ with it.
\<close>

lemma createWallet_empty_phrase:
  "createWallet demo_lib ''zoo zoo'' (Some (demo_options\<lparr>o_mnemonics := Some []\<rparr>))
     \<noteq> createWallet demo_lib ''legal winner'' (Some (demo_options\<lparr>o_mnemonics := Some []\<rparr>))"
  by (simp add: createWallet_def demo_eval)

text \<open>
  Claim C5: when the options carry a raw private key \<open>k\<close> (a non-empty string), the
  wallet returned has the private key, the address and the checksummed address computed
  from the bytes of \<open>k\<close>, the same for every phrase; its public key is the one of the node
  derived from the phrase, the same as without the raw key.
\<close>

theorem createWallet_raw_key:
  assumes "o_privateKey opts = Some k" and "truthy k"
    and "createWallet L fresh (Some opts) = Inr w"
  shows "w_privateKey w = hex_of_bytes (Buffer_from k)
    \<and> (\<exists>pub a. privateToPublic L (Buffer_from k) = Inr pub
          \<and> publicToAddress L pub = Inr a
          \<and> w_address w = ''0x'' @ hex_of_bytes a
          \<and> toChecksumAddress L (w_address w) = Inr (w_checkSumAddress w))
    \<and> (\<exists>node. derive L (fromMasterSeed L (mnemonicToSeed L (or_else (o_mnemonics opts) fresh)))
                 DEFAULT_DERIVATION_PATH = Inr node
          \<and> w_publicKey w = hex_of_bytes (hd_publicKey node))
    \<and> (\<forall>w0. createWallet L fresh (Some (opts\<lparr>o_privateKey := None\<rparr>)) = Inr w0
          \<longrightarrow> w_publicKey w = w_publicKey w0)
    \<and> (\<forall>opts' fresh' w'.
          o_privateKey opts' = Some k \<and> createWallet L fresh' (Some opts') = Inr w'
          \<longrightarrow> w_privateKey w' = w_privateKey w \<and> w_address w' = w_address w
              \<and> w_checkSumAddress w' = w_checkSumAddress w)"
proof -
  note defs = createWallet_def Let_def
  have c1: "w_privateKey w = hex_of_bytes (Buffer_from k)"
    using assms by (auto simp: defs split: if_splits sum.splits)
  have c2: "\<exists>pub a. privateToPublic L (Buffer_from k) = Inr pub
          \<and> publicToAddress L pub = Inr a
          \<and> w_address w = ''0x'' @ hex_of_bytes a
          \<and> toChecksumAddress L (w_address w) = Inr (w_checkSumAddress w)"
    using assms by (auto simp: defs split: if_splits sum.splits)
  have c3: "\<exists>node. derive L (fromMasterSeed L (mnemonicToSeed L (or_else (o_mnemonics opts) fresh)))
                 DEFAULT_DERIVATION_PATH = Inr node
          \<and> w_publicKey w = hex_of_bytes (hd_publicKey node)"
    using assms by (auto simp: defs split: if_splits sum.splits)
  have c4: "w_publicKey w = w_publicKey w0"
    if "createWallet L fresh (Some (opts\<lparr>o_privateKey := None\<rparr>)) = Inr w0" for w0
    using that assms by (auto simp: defs split: if_splits sum.splits)
  have c5: "w_privateKey w' = w_privateKey w \<and> w_address w' = w_address w
              \<and> w_checkSumAddress w' = w_checkSumAddress w"
    if "o_privateKey opts' = Some k \<and> createWallet L fresh' (Some opts') = Inr w'"
    for opts' fresh' w'
    using that assms by (auto simp: defs split: if_splits sum.splits)
  from c1 c2 c3 c4 c5 show ?thesis by blast
qed

theorem createWallet_raw_key_witness:
  "o_privateKey (demo_options\<lparr>o_privateKey := Some ''4c''\<rparr>) = Some ''4c'' \<and> truthy ''4c''
   \<and> createWallet demo_lib ''zoo zoo'' (Some (demo_options\<lparr>o_privateKey := Some ''4c''\<rparr>)) =
       Inr \<lparr>w_privateKey = ''3463'', w_mnemonics = Some demo_mnemonic,
            w_address = ''0x6334'', w_checkSumAddress = ''0x6334'',
            w_publicKey = ''306e616261''\<rparr>
   \<and> hex_of_bytes (Buffer_from ''4c'') = ''3463''
   \<and> createWallet demo_lib ''zoo zoo'' (Some demo_options) =
       Inr \<lparr>w_privateKey = ''6162616e30'', w_mnemonics = Some demo_mnemonic,
            w_address = ''0x306e616261'', w_checkSumAddress = ''0x306e616261'',
            w_publicKey = ''306e616261''\<rparr>
   \<and> createWallet demo_lib ''zoo zoo''
        (Some \<lparr>o_type = Some HD, o_privateKey = Some ''4c'', o_mnemonics = Some ''legal winner''\<rparr>) =
       Inr \<lparr>w_privateKey = ''3463'', w_mnemonics = Some ''legal winner'',
            w_address = ''0x6334'', w_checkSumAddress = ''0x6334'',
            w_publicKey = ''306167656c''\<rparr>"
proof -
  have h1: "o_privateKey (demo_options\<lparr>o_privateKey := Some ''4c''\<rparr>) = Some ''4c''"
    by simp
  have h2: "truthy ''4c''"
    by (simp add: truthy_def)
  note t = createWallet_raw_key [OF h1 h2 demo_createWallet_raw]
  have "hex_of_bytes (Buffer_from ''4c'') = ''3463''"
    using t by simp
  with h1 h2 demo_createWallet_raw demo_createWallet demo_createWallet_raw_other
  show ?thesis by simp
qed

subsection \<open>Strings of digits\<close>

lemma digit_code: "is_digit c \<Longrightarrow> 48 \<le> (of_char c :: nat) \<and> (of_char c :: nat) \<le> 57"
  by (simp add: is_digit_def Let_def)

lemma digit_chars:
  assumes "is_digit c"
  shows "\<not> is_ws c" and "c \<noteq> CHR ''-''" and "c \<noteq> CHR ''.''" and "c \<noteq> CHR ''x''"
    and "\<not> is_hex_letter c"
proof -
  note n = digit_code [OF assms]
  show "\<not> is_ws c"
    using n by (simp add: is_ws_def)
  show "c \<noteq> CHR ''-''"
  proof
    assume "c = CHR ''-''"
    then have "(of_char c :: nat) = 45" by simp
    with n show False by simp
  qed
  show "c \<noteq> CHR ''.''"
  proof
    assume "c = CHR ''.''"
    then have "(of_char c :: nat) = 46" by simp
    with n show False by simp
  qed
  show "c \<noteq> CHR ''x''"
  proof
    assume "c = CHR ''x''"
    then have "(of_char c :: nat) = 120" by simp
    with n show False by simp
  qed
  show "\<not> is_hex_letter c"
    using n by (simp add: is_hex_letter_def Let_def)
qed

lemma upper_code:
  "c \<in> set ''ABCDEFGHIJKLMNOPQRSTUVWXYZ'' \<Longrightarrow> 65 \<le> (of_char c :: nat) \<and> (of_char c :: nat) \<le> 90"
  by auto

lemma lower_char_id: "c \<notin> set ''ABCDEFGHIJKLMNOPQRSTUVWXYZ'' \<Longrightarrow> lower_char c = c"
proof -
  assume a: "c \<notin> set ''ABCDEFGHIJKLMNOPQRSTUVWXYZ''"
  have "map_of (zip ''ABCDEFGHIJKLMNOPQRSTUVWXYZ'' ''abcdefghijklmnopqrstuvwxyz'') c = None"
    unfolding map_of_eq_None_iff using a by (simp only: set_map [symmetric] map_fst_zip length_Cons list.size) simp
  then show ?thesis by (simp only: lower_char_def option.case)
qed

lemma lower_char_digit: "is_digit c \<Longrightarrow> lower_char c = c"
proof (rule lower_char_id)
  assume d: "is_digit c"
  show "c \<notin> set ''ABCDEFGHIJKLMNOPQRSTUVWXYZ''"
  proof
    assume "c \<in> set ''ABCDEFGHIJKLMNOPQRSTUVWXYZ''"
    from upper_code [OF this] digit_code [OF d] show False by simp
  qed
qed

lemma lower_char_point: "lower_char (CHR ''.'') = CHR ''.''"
  by (simp add: lower_char_def)

lemma point_chars:
  "\<not> is_ws (CHR ''.'')" "\<not> is_digit (CHR ''.'')" "\<not> is_hex_letter (CHR ''.'')"
  by (simp_all add: is_ws_def is_digit_def is_hex_letter_def)

lemma toLowerCase_digits: "list_all is_digit s \<Longrightarrow> toLowerCase s = s"
  by (induction s) (auto simp: toLowerCase_def lower_char_digit)

lemma trim_id: "s \<noteq> [] \<Longrightarrow> \<not> is_ws (hd s) \<Longrightarrow> \<not> is_ws (last s) \<Longrightarrow> trim s = s"
proof -
  assume ne: "s \<noteq> []" and h: "\<not> is_ws (hd s)" and l: "\<not> is_ws (last s)"
  from ne h have a: "dropWhile is_ws s = s" by (cases s) auto
  from ne l have "dropWhile is_ws (rev s) = rev s" by (cases "rev s") (auto simp: last_rev)
  with a show ?thesis by (simp add: trim_def)
qed

lemma trim_digits: "s \<noteq> [] \<Longrightarrow> list_all is_digit s \<Longrightarrow> trim s = s"
proof (rule trim_id)
  assume ne: "s \<noteq> []" and d: "list_all is_digit s"
  show "s \<noteq> []" by (rule ne)
  from ne d have "is_digit (hd s)" by (cases s) auto
  then show "\<not> is_ws (hd s)" by (rule digit_chars)
  from ne d have "is_digit (last s)" by (simp add: list_all_iff)
  then show "\<not> is_ws (last s)" by (rule digit_chars)
qed

lemma digits_no_prefix:
  assumes "list_all is_digit s"
  shows "take 1 s \<noteq> ''-''" and "take 2 s \<noteq> ''0x''" and "take 3 s \<noteq> ''-0x''"
    and "take (Suc 0) s \<noteq> ''-''"
proof -
  show "take (Suc 0) s \<noteq> ''-''"
    using assms digit_chars(2) by (cases s) auto
  show "take 1 s \<noteq> ''-''"
    using assms digit_chars(2) by (cases s) auto
  show "take 2 s \<noteq> ''0x''"
  proof (cases s)
    case Nil
    then show ?thesis by simp
  next
    case (Cons a t)
    then show ?thesis using assms digit_chars(4) by (cases t) auto
  qed
  show "take 3 s \<noteq> ''-0x''"
    using assms digit_chars(2) by (cases s) auto
qed

lemma BN_parse_digits: "list_all is_digit s \<Longrightarrow> BN_parse b s = int (base_val b s)"
  by (simp add: BN_parse_def digits_no_prefix)

lemma toBN_digits:
  assumes "s \<noteq> []" and "list_all is_digit s"
  shows "toBN s = Inr (int (base_val 10 s))"
proof -
  have f: "trim (toLowerCase s) = s"
    using assms by (simp add: toLowerCase_digits trim_digits)
  have m: "match_integer s"
    using assms by (simp add: match_integer_def digits_no_prefix)
  have "is_digit (hd s)" using assms by (cases s) auto
  then have "\<not> is_hex_letter (hd s)" by (rule digit_chars)
  then have l: "\<not> match_hex_letters s"
    using assms by (cases s) (auto simp: match_hex_letters_def)
  show ?thesis
    using assms
    by (simp add: toBN_def f stripHexPrefix_def digits_no_prefix m l BN_parse_digits)
qed


lemma in_set_dropWhile: "x \<in> set xs \<Longrightarrow> \<not> P x \<Longrightarrow> x \<in> set (dropWhile P xs)"
  by (induction xs) auto

lemma in_set_trim: "x \<in> set s \<Longrightarrow> \<not> is_ws x \<Longrightarrow> x \<in> set (trim s)"
  by (simp add: trim_def in_set_dropWhile)

lemma in_set_drop_prefix:
  "x \<in> set s \<Longrightarrow> take n s = p \<Longrightarrow> x \<notin> set p \<Longrightarrow> x \<in> set (drop n s)"
proof -
  assume a: "x \<in> set s" and b: "take n s = p" and c: "x \<notin> set p"
  have "set s = set (take n s) \<union> set (drop n s)"
    by (metis append_take_drop_id set_append)
  with a b c show ?thesis by auto
qed

lemma point_in_stripHexPrefix:
  "CHR ''.'' \<in> set s \<Longrightarrow> CHR ''.'' \<in> set (stripHexPrefix s)"
  unfolding stripHexPrefix_def
  by (auto intro: in_set_drop_prefix [where p = "''0x''"])

lemma point_no_match:
  assumes "CHR ''.'' \<in> set s"
  shows "\<not> match_integer s" and "\<not> match_hex s" and "\<not> match_hex_letters s"
proof -
  have d: "\<not> list_all is_digit t" if "CHR ''.'' \<in> set t" for t
    using that point_chars by (auto simp: list_all_iff)
  show "\<not> match_integer s"
  proof (cases "take 1 s = ''-''")
    case True
    then have "CHR ''.'' \<in> set (drop 1 s)"
      using assms by (intro in_set_drop_prefix [where p = "''-''"]) auto
    with True d show ?thesis by (simp add: match_integer_def)
  next
    case False
    with assms d show ?thesis by (simp add: match_integer_def)
  qed
  show "\<not> match_hex s"
    using assms point_chars by (auto simp: match_hex_def list_all_iff)
  show "\<not> match_hex_letters s"
    using assms point_chars by (auto simp: match_hex_letters_def list_all_iff)
qed

lemma toBN_point:
  assumes "CHR ''.'' \<in> set s"
  shows "toBN s = Inl (LibError ''toBN'')"
proof -
  let ?f = "trim (toLowerCase s)"
  have "CHR ''.'' \<in> set (toLowerCase s)"
    using assms lower_char_point by (force simp: toLowerCase_def)
  then have f: "CHR ''.'' \<in> set ?f"
    using point_chars by (intro in_set_trim) auto
  then have s0: "CHR ''.'' \<in> set (stripHexPrefix ?f)"
    by (rule point_in_stripHexPrefix)
  let ?a = "if take 1 (stripHexPrefix ?f) = ''-''
            then stripHexPrefix (drop 1 (stripHexPrefix ?f)) else stripHexPrefix ?f"
  have s1: "CHR ''.'' \<in> set ?a"
  proof (cases "take 1 (stripHexPrefix ?f) = ''-''")
    case True
    then have "CHR ''.'' \<in> set (drop 1 (stripHexPrefix ?f))"
      using s0 by (intro in_set_drop_prefix [where p = "''-''"]) auto
    then have "CHR ''.'' \<in> set (stripHexPrefix (drop 1 (stripHexPrefix ?f)))"
      by (rule point_in_stripHexPrefix)
    with True show ?thesis by simp
  next
    case False
    with s0 show ?thesis by simp
  qed
  then have ne: "?a \<noteq> []" by auto
  note nm = point_no_match [OF s1]
  show ?thesis
    unfolding toBN_def Let_def
    using ne nm by (simp only: if_False if_True simp_thms)
qed

lemma base_val_append:
  "base_val b (xs @ ys) = base_val b xs * b ^ length ys + base_val b ys"
proof -
  have step: "foldl (\<lambda>a c. b * a + digit_val c) a ys
          = a * b ^ length ys + foldl (\<lambda>a c. b * a + digit_val c) 0 ys" for a
  proof (induction ys arbitrary: a rule: rev_induct)
    case Nil
    then show ?case by simp
  next
    case (snoc y ys)
    let ?f = "\<lambda>a c. b * a + digit_val c"
    have "foldl ?f a (ys @ [y]) = b * foldl ?f a ys + digit_val y"
      by simp
    also have "\<dots> = b * (a * b ^ length ys + foldl ?f 0 ys) + digit_val y"
      by (simp only: snoc.IH [of a])
    also have "\<dots> = a * b ^ length (ys @ [y]) + (b * foldl ?f 0 ys + digit_val y)"
      by (simp add: distrib_left)
    also have "\<dots> = a * b ^ length (ys @ [y]) + foldl ?f 0 (ys @ [y])"
      by simp
    finally show ?case .
  qed
  show ?thesis
    unfolding base_val_def foldl_append
    by (rule step)
qed

lemma base_val_zeros: "base_val b (replicate k (CHR ''0'')) = 0"
proof (induction k)
  case 0
  then show ?case by (simp add: base_val_def)
next
  case (Suc k)
  have "replicate (Suc k) (CHR ''0'') = replicate k (CHR ''0'') @ ''0''"
    by (simp add: replicate_append_same)
  then have "base_val b (replicate (Suc k) (CHR ''0''))
        = base_val b (replicate k (CHR ''0'')) * b ^ 1 + base_val b ''0''"
    by (simp only: base_val_append) simp
  with Suc show ?case by (simp add: base_val_def digit_val_def)
qed

lemma split_on_none: "d \<notin> set s \<Longrightarrow> split_on d s = [s]"
  by (induction s) auto

lemma split_on_first: "d \<notin> set xs \<Longrightarrow> split_on d (xs @ d # ys) = xs # split_on d ys"
  by (induction xs) auto

lemma int_to_dec_int: "int_to_dec (int n) = nat_to_dec n"
  by (simp add: int_to_dec_def)

subsection \<open>Conversion to wei\<close>

text \<open>
  On a decimal numeral with at most 18 fraction digits \<open>toWei_ether\<close> is the exact product
  with \<open>10^18\<close>; more fraction digits are rejected.
\<close>

lemma digits_no_point: "list_all is_digit s \<Longrightarrow> CHR ''.'' \<notin> set s"
  using digit_chars(3) by (auto simp: list_all_iff)

lemma toWei_decimal:
  assumes "ws \<noteq> []" and "list_all is_digit ws"
    and "fs \<noteq> []" and "list_all is_digit fs" and "length fs \<le> 18"
  shows "toWei_ether (ws @ ''.'' @ fs) =
           Inr (nat_to_dec (base_val 10 ws * 10 ^ 18 + base_val 10 fs * 10 ^ (18 - length fs)))"
proof -
  let ?e = "ws @ ''.'' @ fs"
  have hd: "take 1 ?e \<noteq> ''-''"
    using assms(1,2) digit_chars(2) by (cases ws) auto
  have m: "match_number ?e"
    using assms hd by (auto simp: match_number_def list_all_iff)
  have ne: "?e \<noteq> ''.''"
    using assms(1,3) by (cases ws) auto
  have comps: "split_on (CHR ''.'') ?e = [ws, fs]"
    using split_on_first [of "CHR ''.''" ws fs] split_on_none [of "CHR ''.''" fs]
      digits_no_point [OF assms(2)] digits_no_point [OF assms(4)]
    by simp
  let ?p = "fs @ replicate (18 - length fs) (CHR ''0'')"
  have zd: "is_digit (CHR ''0'')"
    by (simp add: is_digit_def)
  have pd: "list_all is_digit ?p"
    using assms(4) zd by (auto simp: list_all_iff)
  have pv: "BN_parse 10 ?p = int (base_val 10 fs * 10 ^ (18 - length fs))"
    by (simp only: BN_parse_digits [OF pd] base_val_append base_val_zeros) simp
  have wv: "BN_parse 10 ws = int (base_val 10 ws)"
    by (rule BN_parse_digits [OF assms(2)])
  have "toWei_ether ?e =
          Inr (int_to_dec (BN_parse 10 ws * 10 ^ 18 + BN_parse 10 ?p))"
    unfolding toWei_ether_def Let_def
    using m hd ne comps assms by (simp del: append.simps replicate.simps)
  also have "\<dots> = Inr (int_to_dec (int (base_val 10 ws * 10 ^ 18 + base_val 10 fs * 10 ^ (18 - length fs))))"
    by (simp only: pv wv) simp
  finally show ?thesis by (simp only: int_to_dec_int)
qed

lemma toWei_integer:
  assumes "ws \<noteq> []" and "list_all is_digit ws"
  shows "toWei_ether ws = Inr (nat_to_dec (base_val 10 ws * 10 ^ 18))"
proof -
  have hd: "take 1 ws \<noteq> ''-''"
    using assms(2) by (rule digits_no_prefix)
  have m: "match_number ws"
    using assms hd by (auto simp: match_number_def list_all_iff)
  have ne: "ws \<noteq> ''.''"
    using assms(2) point_chars by auto
  have comps: "split_on (CHR ''.'') ws = [ws]"
    using split_on_none digits_no_point [OF assms(2)] by simp
  have z0: "base_val 10 ''0'' = 0"
    by (simp add: base_val_def digit_val_def)
  have "list_all is_digit (''0'' @ replicate 17 (CHR ''0''))"
    by (auto simp: list_all_iff is_digit_def)
  then have "BN_parse 10 (''0'' @ replicate 17 (CHR ''0''))
               = int (base_val 10 (''0'' @ replicate 17 (CHR ''0'')))"
    by (rule BN_parse_digits)
  then have z: "BN_parse 10 (''0'' @ replicate 17 (CHR ''0'')) = 0"
    by (simp only: base_val_append base_val_zeros z0)
  have "toWei_ether ws = Inr (int_to_dec (BN_parse 10 ws * 10 ^ 18 + BN_parse 10 (''0'' @ replicate 17 (CHR ''0''))))"
    unfolding toWei_ether_def Let_def
    using m hd ne comps assms by (simp del: replicate.simps)
  also have "\<dots> = Inr (int_to_dec (int (base_val 10 ws * 10 ^ 18)))"
    by (simp only: z BN_parse_digits [OF assms(2)]) simp
  finally show ?thesis by (simp only: int_to_dec_int)
qed

subsection \<open>Evaluation of numbers\<close>

lemma bit_length_eval:
  "bit_length 0 = 0"
  "0 < n \<Longrightarrow> bit_length n = Suc (bit_length (n div 2))"
  by (simp_all add: bit_length.simps [of n] bit_length.simps [of 0])

lemma nat_to_dec_eval:
  "n < 10 \<Longrightarrow> nat_to_dec n = [digit_char n]"
  "10 \<le> n \<Longrightarrow> nat_to_dec n = nat_to_dec (n div 10) @ [digit_char (n mod 10)]"
  by (simp_all add: nat_to_dec.simps [of n])

lemma shortest_from_eval:
  "0 < p \<Longrightarrow> shortest_from d p =
     (let lo = (d div 10 ^ p) * 10 ^ p;
          hi = lo + 10 ^ p;
          lo_ok = (lo \<noteq> 0 \<and> js_Number lo = d);
          hi_ok = (js_Number hi = d)
      in if lo_ok \<and> hi_ok then
           (if d - lo < hi - d then lo
            else if hi - d < d - lo then hi
            else if even (d div 10 ^ p) then lo else hi)
         else if lo_ok then lo
         else if hi_ok then hi
         else shortest_from d (p - 1))"
proof (cases p)
  case 0
  assume "0 < p"
  with 0 show ?thesis by simp
next
  case (Suc n)
  show ?thesis unfolding Suc by (simp only: shortest_from.simps diff_Suc_1)
qed

lemma js_Number_eval:
  "n < 9007199254740992 \<Longrightarrow> js_Number n = n"
  "9007199254740992 \<le> n \<Longrightarrow> js_Number n =
     (let e = bit_length n - 53; q = n div 2 ^ e; r = n mod 2 ^ e; half = 2 ^ (e - 1)
      in if r > half \<or> (r = half \<and> odd q) then (q + 1) * 2 ^ e else q * 2 ^ e)"
  by (simp_all add: js_Number_def)

lemma js_Number_demo:
  "js_Number 10000000000000001 = 10000000000000000"
  "js_Number 10000000000000000 = 10000000000000000"
  "js_Number 20000000000000000 = 20000000000000000"
  "js_Number 100000000000000000 = 100000000000000000"
  by (simp_all add: js_Number_eval bit_length_eval Let_def)

lemma demo_digits:
  "nat_to_dec 10000000000000000 = ''10000000000000000''"
  "nat_to_dec 10000000000000001 = ''10000000000000001''"
  by (simp_all add: nat_to_dec_eval digit_char_def)

lemma js_String_demo: "js_String_value 10000000000000000 = 10000000000000000"
  unfolding js_String_value_def demo_digits
  by (simp add: shortest_from_eval js_Number_demo Let_def)

lemma toString_demo:
  "BigNumber_toString (dividedBy_pow10 10000000000000000 18) = ''0.01''"
  "BigNumber_toString (dividedBy_pow10 10000000000000001 18) = ''0.010000000000000001''"
  by (simp_all add: BigNumber_toString_def dividedBy_pow10_def demo_digits
     count_trailing_zeros_def toFixedPoint_def Let_def)

subsection \<open>Numbers as strings\<close>

text \<open>
  An integer below \<open>2^53\<close> is written by \<open>Number_toString\<close> as its decimal numeral; the double
  \<open>10^21\<close> is written with an exponent.
\<close>

lemma bit_length_upper: "n < 2 ^ bit_length n"
proof (induction n rule: bit_length.induct)
  case (1 n)
  show ?case
  proof (cases "n = 0")
    case True
    then show ?thesis by (simp add: bit_length.simps [of 0])
  next
    case False
    with 1 have "n div 2 < 2 ^ bit_length (n div 2)" by simp
    then have "n < 2 * 2 ^ bit_length (n div 2)" by simp
    with False show ?thesis by (simp add: bit_length.simps [of n])
  qed
qed

lemma bit_length_lower: "0 < n \<Longrightarrow> 2 ^ (bit_length n - 1) \<le> n"
proof (induction n rule: bit_length.induct)
  case (1 n)
  show ?case
  proof (cases "n div 2 = 0")
    case True
    with 1(2) have "n = 1" by (simp add: div_eq_0_iff) 
    then show ?thesis by (simp add: bit_length.simps [of "Suc 0"] bit_length.simps [of 0])
  next
    case False
    with 1 have ih: "2 ^ (bit_length (n div 2) - 1) \<le> n div 2" by simp
    from False have p: "0 < bit_length (n div 2)"
      by (simp add: bit_length.simps [of "n div 2"])
    have "bit_length n = Suc (bit_length (n div 2))"
      using 1(2) by (simp add: bit_length.simps [of n])
    then have "2 ^ (bit_length n - 1) = 2 * 2 ^ (bit_length (n div 2) - 1)"
      using p by (cases "bit_length (n div 2)") simp_all
    also have "\<dots> \<le> 2 * (n div 2)" using ih by simp
    also have "\<dots> \<le> n" by simp
    finally show ?thesis .
  qed
qed

lemma js_Number_large:
  assumes "2 ^ 53 \<le> n"
  shows "2 ^ 53 \<le> js_Number n"
proof -
  let ?b = "bit_length n"
  let ?e = "?b - 53"
  let ?q = "n div 2 ^ ?e"
  have pos: "0 < n" using assms by (simp add: less_le_trans [of 0 "2 ^ 53"])
  have b: "54 \<le> ?b"
  proof (rule ccontr)
    assume "\<not> 54 \<le> ?b"
    then have "?b \<le> 53" by simp
    then have "(2::nat) ^ ?b \<le> 2 ^ 53" by (rule power_increasing) simp
    with bit_length_upper [of n] assms show False by simp
  qed
  have ex: "52 + ?e = ?b - 1" using b by simp
  have "(2::nat) ^ 52 * 2 ^ ?e = 2 ^ (52 + ?e)"
    by (simp only: power_add)
  also have "\<dots> = 2 ^ (?b - 1)" by (simp only: ex)
  also have "\<dots> \<le> n" by (rule bit_length_lower [OF pos])
  finally have q52: "2 ^ 52 \<le> ?q"
    by (simp add: less_eq_div_iff_mult_less_eq)
  have "(2::nat) ^ 1 \<le> 2 ^ ?e"
    using b by (intro power_increasing) simp_all
  then have e2: "2 \<le> (2::nat) ^ ?e" by simp
  have "(2::nat) ^ 52 * 2 \<le> ?q * 2 ^ ?e"
    using q52 e2 by (rule mult_le_mono)
  then have low: "2 ^ 53 \<le> ?q * 2 ^ ?e" by simp
  then have "2 ^ 53 \<le> (?q + 1) * 2 ^ ?e" by (simp add: add_mult_distrib)
  with low assms show ?thesis by (simp add: js_Number_def Let_def)
qed

lemma js_Number_small: "n < 2 ^ 53 \<Longrightarrow> js_Number n = n"
  by (simp add: js_Number_def)

lemma shortest_from_safe: "n < 2 ^ 53 \<Longrightarrow> shortest_from n p = n"
proof (induction p)
  case 0
  then show ?case by simp
next
  case (Suc p)
  let ?lo = "(n div 10 ^ Suc p) * 10 ^ Suc p"
  let ?hi = "?lo + 10 ^ Suc p"
  have lo_le: "?lo \<le> n" by simp
  have "n mod 10 ^ Suc p < 10 ^ Suc p"
    by (rule mod_less_divisor) simp
  then have "?lo + n mod 10 ^ Suc p < ?hi"
    by (simp only: add_less_cancel_left)
  then have hi_gt: "n < ?hi"
    by (simp only: div_mult_mod_eq)
  have "?lo < 2 ^ 53"
    using lo_le Suc.prems by (rule le_less_trans)
  then have "js_Number ?lo = ?lo" by (rule js_Number_small)
  then have lo: "js_Number ?lo = n \<longleftrightarrow> ?lo = n" by (simp only:)
  have hi: "js_Number ?hi \<noteq> n"
  proof (cases "?hi < 2 ^ 53")
    case True
    then have "js_Number ?hi = ?hi" by (rule js_Number_small)
    with hi_gt show ?thesis by simp
  next
    case False
    then have "2 ^ 53 \<le> js_Number ?hi" by (intro js_Number_large) simp
    with Suc.prems show ?thesis by simp
  qed
  show ?case
    using lo hi Suc.IH [OF Suc.prems]
    by (simp only: shortest_from.simps Let_def) (simp del: power_Suc)
qed

lemma js_String_value_safe: "n < 2 ^ 53 \<Longrightarrow> js_String_value n = n"
  by (simp add: js_String_value_def shortest_from_safe)

lemma length_nat_to_dec: "0 < k \<Longrightarrow> n < 10 ^ k \<Longrightarrow> length (nat_to_dec n) \<le> k"
proof (induction k arbitrary: n)
  case 0
  then show ?case by simp
next
  case (Suc k)
  show ?case
  proof (cases "n < 10")
    case True
    then show ?thesis by (simp add: nat_to_dec.simps [of n])
  next
    case False
    then have k: "0 < k" using Suc.prems by (cases k) simp_all
    have "n div 10 < 10 ^ k" using Suc.prems by (simp add: less_mult_imp_div_less mult.commute)
    from Suc.IH [OF k this] False show ?thesis by (simp add: nat_to_dec.simps [of n])
  qed
qed

lemma strip_trailing_zeros_restore:
  "strip_trailing_zeros s @ replicate (length s - length (strip_trailing_zeros s)) (CHR ''0'') = s"
proof -
  let ?P = "\<lambda>c. c = CHR ''0''"
  have "rev s = takeWhile ?P (rev s) @ dropWhile ?P (rev s)" by simp
  then have s: "s = rev (dropWhile ?P (rev s)) @ rev (takeWhile ?P (rev s))"
    by (metis rev_append rev_rev_ident)
  have "replicate (length (takeWhile ?P (rev s))) (CHR ''0'') = takeWhile ?P (rev s)"
    by (rule replicate_length_same) (auto dest: set_takeWhileD)
  then have t: "rev (takeWhile ?P (rev s)) = replicate (length (takeWhile ?P (rev s))) (CHR ''0'')"
    by (metis rev_replicate)
  have "length s = length (dropWhile ?P (rev s)) + length (takeWhile ?P (rev s))"
    by (metis add.commute length_append length_rev takeWhile_dropWhile_id)
  then have l: "length s - length (strip_trailing_zeros s) = length (takeWhile ?P (rev s))"
    by (simp add: strip_trailing_zeros_def)
  show ?thesis
    unfolding l using s t by (simp add: strip_trailing_zeros_def)
qed

lemma format_digits_integer:
  assumes "length ds \<le> 21"
  shows "format_digits (strip_trailing_zeros ds) (int (length ds)) = ds"
proof -
  have le: "length (strip_trailing_zeros ds) \<le> length ds"
    by (simp add: strip_trailing_zeros_def length_dropWhile_le [of _ "rev ds", simplified])
  have "nat (int (length ds) - int (length (strip_trailing_zeros ds)))
          = length ds - length (strip_trailing_zeros ds)"
    by simp
  with le assms show ?thesis
    by (simp add: format_digits_def Let_def strip_trailing_zeros_restore)
qed

lemma Number_toString_safe:
  assumes "n < 2 ^ 53"
  shows "Number_toString (Finite False n 0) = nat_to_dec n"
proof (cases "n = 0")
  case True
  then show ?thesis by (simp add: Number_toString_def nat_to_dec.simps [of 0] digit_char_def)
next
  case False
  have "n < 10 ^ 21" using assms by simp
  then have "length (nat_to_dec n) \<le> 21" by (intro length_nat_to_dec) simp_all
  then have "format_digits (strip_trailing_zeros (nat_to_dec n)) (int (length (nat_to_dec n)))
               = nat_to_dec n"
    by (rule format_digits_integer)
  with False assms show ?thesis
    by (simp add: Number_toString_def integral_part_def js_String_value_safe Let_def)
qed

lemma Number_toString_1e21: "Number_toString (Finite False 476837158203125 21) = ''1e+21''"
proof -
  have i: "integral_part 476837158203125 21 = Some 1000000000000000000000"
    by (simp add: integral_part_def)
  have d: "nat_to_dec 1000000000000000000000 = ''1000000000000000000000''"
    "nat_to_dec 21 = ''21''"
    by (simp_all add: nat_to_dec_eval digit_char_def)
  have n: "js_Number 1000000000000000000000 = 1000000000000000000000"
    "js_Number 10000000000000000000000 = 10000000000000000000000"
    "js_Number 2000000000000000000000 = 2000000000000000000000"
    by (simp_all add: js_Number_eval bit_length_eval Let_def)
  have s: "js_String_value 1000000000000000000000 = 1000000000000000000000"
    unfolding js_String_value_def d by (simp add: shortest_from_eval n Let_def)
  show ?thesis
    by (simp add: Number_toString_def i s d strip_trailing_zeros_def format_digits_def Let_def)
qed

text \<open>
  Claim C6: for a phrase of at least 12 words and every index, \<open>generateAddress\<close> returns
  a wallet exactly when the derivation at the default path with its last component
  replaced by the index as the template literal writes it (1 when there is none) and the
  address computation succeed; the address and the checksummed address are those of the
  derived node, the public and the private key are those of the master node. An index
  that is an integer below \<open>2^53\<close> is written as its decimal numeral.
\<close>

theorem generateAddress_master_keys:
  assumes "12 \<le> length (ws_words m)"
  shows "(generateAddress L m idx = Inr w \<longleftrightarrow>
    (\<exists>node pub a c.
       derive L (fromMasterSeed L (mnemonicToSeed L m))
         (butlast DEFAULT_DERIVATION_PATH
            @ Number_toString (case idx of None \<Rightarrow> Finite False 1 0 | Some i \<Rightarrow> i))
         = Inr node
       \<and> privateToPublic L (hd_privateKey node) = Inr pub
       \<and> publicToAddress L pub = Inr a
       \<and> toChecksumAddress L (''0x'' @ hex_of_bytes a) = Inr c
       \<and> w = \<lparr>w_privateKey = hex_of_bytes (hd_privateKey (fromMasterSeed L (mnemonicToSeed L m))),
               w_mnemonics = Some m,
               w_address = ''0x'' @ hex_of_bytes a,
               w_checkSumAddress = c,
               w_publicKey = hex_of_bytes (hd_publicKey (fromMasterSeed L (mnemonicToSeed L m)))\<rparr>))
    \<and> (\<forall>n. n < 2 ^ 53 \<longrightarrow> Number_toString (Finite False n 0) = nat_to_dec n)"
proof -
  have v: "isValidMnemonic m"
    using assms by (simp add: isValidMnemonic_words)
  have p: "butlast DEFAULT_DERIVATION_PATH = ''m/44'/60'/0'/0/''"
    by (simp add: DEFAULT_DERIVATION_PATH_def)
  have "generateAddress L m idx = Inr w \<longleftrightarrow>
    (\<exists>node pub a c.
       derive L (fromMasterSeed L (mnemonicToSeed L m))
         (butlast DEFAULT_DERIVATION_PATH
            @ Number_toString (case idx of None \<Rightarrow> Finite False 1 0 | Some i \<Rightarrow> i))
         = Inr node
       \<and> privateToPublic L (hd_privateKey node) = Inr pub
       \<and> publicToAddress L pub = Inr a
       \<and> toChecksumAddress L (''0x'' @ hex_of_bytes a) = Inr c
       \<and> w = \<lparr>w_privateKey = hex_of_bytes (hd_privateKey (fromMasterSeed L (mnemonicToSeed L m))),
               w_mnemonics = Some m,
               w_address = ''0x'' @ hex_of_bytes a,
               w_checkSumAddress = c,
               w_publicKey = hex_of_bytes (hd_publicKey (fromMasterSeed L (mnemonicToSeed L m)))\<rparr>)"
    unfolding p using v
    by (auto simp: generateAddress_def Let_def split: sum.splits)
  then show ?thesis
    using Number_toString_safe by blast
qed

theorem generateAddress_master_keys_witness:
  "12 \<le> length (ws_words demo_mnemonic)
   \<and> (7 :: nat) < 2 ^ 53
   \<and> Number_toString (Finite False 7 0) = ''7''
   \<and> generateAddress demo_lib demo_mnemonic (Some (Finite False 7 0)) =
       Inr \<lparr>w_privateKey = ''6162616e'', w_mnemonics = Some demo_mnemonic,
            w_address = ''0x376e616261'', w_checkSumAddress = ''0x376e616261'',
            w_publicKey = ''6e616261''\<rparr>
   \<and> generateAddress demo_lib demo_mnemonic None =
       Inr \<lparr>w_privateKey = ''6162616e'', w_mnemonics = Some demo_mnemonic,
            w_address = ''0x316e616261'', w_checkSumAddress = ''0x316e616261'',
            w_publicKey = ''6e616261''\<rparr>
   \<and> generateAddress demo_lib demo_mnemonic (Some (Finite False 476837158203125 21)) =
       Inr \<lparr>w_privateKey = ''6162616e'', w_mnemonics = Some demo_mnemonic,
            w_address = ''0x31322b65316e616261'', w_checkSumAddress = ''0x31322b65316e616261'',
            w_publicKey = ''6e616261''\<rparr>"
proof -
  have h: "12 \<le> length (ws_words demo_mnemonic)"
    by (simp add: demo_words)
  note t = generateAddress_master_keys [OF h]
  have d7: "nat_to_dec 7 = ''7''" and d1: "nat_to_dec (Suc 0) = ''1''"
    by (simp_all add: nat_to_dec.simps digit_char_def)
  have n7: "Number_toString (Finite False 7 0) = ''7''"
    using t [THEN conjunct2] d7 by simp
  have n1: "Number_toString (Finite False (Suc 0) 0) = ''1''"
    using t [THEN conjunct2] d1 by simp
  have a: "generateAddress demo_lib demo_mnemonic (Some (Finite False 7 0)) =
       Inr \<lparr>w_privateKey = ''6162616e'', w_mnemonics = Some demo_mnemonic,
            w_address = ''0x376e616261'', w_checkSumAddress = ''0x376e616261'',
            w_publicKey = ''6e616261''\<rparr>"
    unfolding t [THEN conjunct1]
    by (simp add: n7 demo_eval)
  have b: "generateAddress demo_lib demo_mnemonic None =
       Inr \<lparr>w_privateKey = ''6162616e'', w_mnemonics = Some demo_mnemonic,
            w_address = ''0x316e616261'', w_checkSumAddress = ''0x316e616261'',
            w_publicKey = ''6e616261''\<rparr>"
    unfolding t [THEN conjunct1]
    by (simp add: n1 demo_eval)
  have c: "generateAddress demo_lib demo_mnemonic (Some (Finite False 476837158203125 21)) =
       Inr \<lparr>w_privateKey = ''6162616e'', w_mnemonics = Some demo_mnemonic,
            w_address = ''0x31322b65316e616261'', w_checkSumAddress = ''0x31322b65316e616261'',
            w_publicKey = ''6e616261''\<rparr>"
    unfolding t [THEN conjunct1]
    by (simp add: Number_toString_1e21 demo_eval)
  from h n7 a b c show ?thesis by simp
qed

subsection \<open>Fee estimation\<close>

lemma toWei_too_long:
  assumes "ws \<noteq> []" and "list_all is_digit ws"
    and "list_all is_digit fs" and "18 < length fs"
  shows "toWei_ether (ws @ ''.'' @ fs) = Inl (LibError ''toWei'')"
proof -
  let ?e = "ws @ ''.'' @ fs"
  have fne: "fs \<noteq> []" using assms(4) by auto
  have hd: "take 1 ?e \<noteq> ''-''"
    using assms(1,2) digit_chars(2) by (cases ws) auto
  have m: "match_number ?e"
    using assms hd by (auto simp: match_number_def list_all_iff)
  have ne: "?e \<noteq> ''.''"
    using assms(1) by (cases ws) auto
  have comps: "split_on (CHR ''.'') ?e = [ws, fs]"
    using split_on_first [of "CHR ''.''" ws fs] split_on_none [of "CHR ''.''" fs]
      digits_no_point [OF assms(2)] digits_no_point [OF assms(3)]
    by simp
  show ?thesis
    unfolding toWei_ether_def Let_def
    using m hd ne comps assms fne by (simp del: append.simps replicate.simps)
qed

lemma estimateFees_native:
  assumes "estimateFees rpc L toks w opts = Inr est"
    and "s_token opts = None \<or> s_token opts = Some ETH"
  shows "e_data est = None \<and> e_to est = s_to opts
         \<and> (\<exists>wei. toWei_ether (s_amount opts) = Inr wei \<and> e_value est = Str (toHex L (Str wei)))"
  using assms
  by (auto simp: estimateFees_def isEth_def Let_def split: sum.splits)

lemma estimateFees_token:
  assumes "estimateFees rpc L toks w opts = Inr est"
    and "s_token opts = Some t" and "t \<noteq> ETH"
  shows "e_value est = Str ''0x0''
         \<and> e_to est = (case find (\<lambda>x. t_symbol x = toLowerCase (token_string t)) (toks (net w)) of
                         Some tk \<Rightarrow> t_contractAddress tk | None \<Rightarrow> [])
         \<and> (\<exists>d a. e_data est = Some d \<and> toBN (s_amount opts) = Inr a
              \<and> transfer_encodeABI L
                   (getTokenContract t (e_to est) (Some (s_from opts))) (s_to opts)
                   (int_to_dec (a * 10 ^ (case find (\<lambda>x. t_symbol x = toLowerCase (token_string t)) (toks (net w)) of
                         Some tk \<Rightarrow> t_decimals tk | None \<Rightarrow> 18))) = Inr d)"
  using assms
  by (auto simp: estimateFees_def isEth_def Let_def split: sum.splits option.splits)




lemma demo_toWei: "toWei_ether ''1.5'' = Inr ''1500000000000000000''"
proof -
  have "toWei_ether (''1'' @ ''.'' @ ''5'') =
          Inr (nat_to_dec (base_val 10 ''1'' * 10 ^ 18 + base_val 10 ''5'' * 10 ^ (18 - length ''5'')))"
    by (rule toWei_decimal) (simp_all add: is_digit_def)
  moreover have "base_val 10 ''1'' = 1" and "base_val 10 ''5'' = 5"
    by (simp_all add: base_val_def digit_val_def)
  moreover have "nat_to_dec 1500000000000000000 = ''1500000000000000000''"
    by (simp add: nat_to_dec.simps digit_char_def)
  ultimately show ?thesis by simp
qed

lemma demo_toBN_rejects: "toBN ''1.5'' = Inl (LibError ''toBN'')"
  by (rule toBN_point) simp

lemma demo_toBN_two: "toBN ''2'' = Inr 2"
proof -
  have "toBN ''2'' = Inr (int (base_val 10 ''2''))"
    by (rule toBN_digits) (simp_all add: is_digit_def)
  then show ?thesis by (simp add: base_val_def digit_val_def)
qed

lemma demo_hex_wei: "nat_to_hex (base_val 10 ''1500000000000000000'') = ''14d1120d7b160000''"
proof -
  have "base_val 10 ''1500000000000000000'' = 1500000000000000000"
    by (simp add: base_val_def digit_val_def)
  then show ?thesis by (simp add: nat_to_hex.simps digit_char_def)
qed

lemma demo_hex_small:
  "nat_to_hex 7 = ''7''" "nat_to_hex 21000 = ''5208''"
  "nat_to_hex (base_val 10 ''2000000'') = ''1e8480''" "int_to_dec 2000000 = ''2000000''"
  by (simp_all add: nat_to_hex.simps nat_to_dec.simps int_to_dec_def digit_char_def base_val_def
      digit_val_def)

lemma demo_node_answers [simp]:
  "getTransactionCount demo_node a = Inr 7"
  "getGasPrice demo_node = Inr ''20000000000''"
  "estimateGas demo_node r = Inr 21000"
  "balanceOf_call demo_node c a = Inr 10000000000000001"
  by (simp_all add: demo_node_def)

lemma demo_lib_calls [simp]:
  "toHex demo_lib (Num n) = ''0x'' @ nat_to_hex n"
  "take 2 s \<noteq> ''0x'' \<Longrightarrow> toHex demo_lib (Str s) = ''0x'' @ nat_to_hex (base_val 10 s)"
  "transfer_encodeABI demo_lib c a v = Inr (''0xa9059cbb'' @ drop 2 a @ nat_to_hex (base_val 10 v))"
  by (simp_all add: demo_lib_def transfer_encodeABI_def truthy_def)

lemma net_constructor [simp]: "net (constructor n) = n"
  by (simp add: constructor_def initProvider_def initSocketProvider_def)

lemma demo_estimate_native:
  "estimateFees demo_rpc demo_lib demo_tokens (constructor TEST) demo_send =
     Inr \<lparr>e_nonce = ''0x7'', e_to = ''0x0000000000000000000000000000000000000abc'', e_value = Str ''0x14d1120d7b160000'',
          e_gasLimit = Num 21000, e_gasPrice = Str ''20000000000'', e_data = None\<rparr>"
  by (simp add: estimateFees_def transactionCount_def demo_send_def demo_toWei demo_hex_wei
      demo_hex_small)

lemma demo_estimate_token:
  "estimateFees demo_rpc demo_lib demo_tokens (constructor TEST)
      (demo_send\<lparr>s_amount := ''2'', s_token := Some USDT\<rparr>) =
     Inr \<lparr>e_nonce = ''0x7'', e_to = ''0x110a13fc3efe6a245b50102d2d79b3e76125ae83'',
          e_value = Str ''0x0'', e_gasLimit = Num 21000, e_gasPrice = Str ''20000000000'',
          e_data = Some ''0xa9059cbb0000000000000000000000000000000000000abc1e8480''\<rparr>"
  by (simp add: estimateFees_def transactionCount_def demo_send_def demo_toBN_two demo_hex_small
      isEth_def demo_tokens_def toLowerCase_def lower_char_def getTokenContract_def)

lemma demo_estimate_token_fraction:
  "estimateFees demo_rpc demo_lib demo_tokens (constructor TEST)
      (demo_send\<lparr>s_token := Some USDT\<rparr>) = Inl (LibError ''toBN'')"
  by (simp add: estimateFees_def transactionCount_def demo_send_def demo_toBN_rejects
      isEth_def demo_tokens_def toLowerCase_def lower_char_def getTokenContract_def)

lemma demo_find_dai:
  "find (\<lambda>t. t_symbol t = toLowerCase ''dai'') (demo_tokens TEST) =
     Some \<lparr>t_symbol = ''dai'', t_name = ''Dai'',
           t_contractAddress = ''0xad6d458402f60fd3bd25163575031acdce07538d'',
           t_decimals = 18, t_description = [], t_url = []\<rparr>"
  by (simp add: demo_tokens_def toLowerCase_def lower_char_def)

lemma demo_find_usdt:
  "find (\<lambda>t. t_symbol t = toLowerCase ''usdt'') (demo_tokens TEST) =
     Some \<lparr>t_symbol = ''usdt'', t_name = ''Tether'',
           t_contractAddress = ''0x110a13fc3efe6a245b50102d2d79b3e76125ae83'',
           t_decimals = 6, t_description = [], t_url = []\<rparr>"
  by (simp add: demo_tokens_def toLowerCase_def lower_char_def)

lemma demo_fromWei: "fromWei_ether 10000000000000001 = ''0.010000000000000001''"
proof -
  have "nat_to_dec 0 = ''0''"
    by (simp add: nat_to_dec_eval digit_char_def)
  then show ?thesis
    by (simp add: fromWei_ether_def demo_digits strip_trailing_zeros_def Let_def)
qed

text \<open>
  On an amount written with digits only, the token branch encodes the exact product of
  the amount and \<open>10^decimals\<close> in the transfer call.
\<close>

lemma estimateFees_token_integer:
  assumes ret: "estimateFees rpc L toks w opts = Inr est"
    and t: "s_token opts = Some t" and ne: "t \<noteq> ETH"
    and d: "s_amount opts \<noteq> []" "list_all is_digit (s_amount opts)"
    and f: "find (\<lambda>x. t_symbol x = toLowerCase (token_string t)) (toks (net w)) = Some tk"
  shows "\<exists>d. e_data est = Some d
           \<and> transfer_encodeABI L
                (getTokenContract t (t_contractAddress tk) (Some (s_from opts))) (s_to opts)
                (nat_to_dec (base_val 10 (s_amount opts) * 10 ^ t_decimals tk)) = Inr d"
proof -
  have "int_to_dec (int (base_val 10 (s_amount opts)) * 10 ^ t_decimals tk)
          = nat_to_dec (base_val 10 (s_amount opts) * 10 ^ t_decimals tk)"
    using int_to_dec_int [of "base_val 10 (s_amount opts) * 10 ^ t_decimals tk"] by simp
  with estimateFees_token [OF ret t ne] toBN_digits [OF d] f show ?thesis
    by auto
qed

text \<open>
  Claim C1 fails on fractional amounts: on the token branch the amount goes through
  \<open>toBN\<close>, which rejects every string with a decimal point, so \<open>estimateFees\<close> returns no
  estimate for an amount such as "1.5" and a token; once the nonce and the gas price
  are fetched, the result is the error of \<open>toBN\<close>. (The native branch converts the same
  amount with \<open>toWei\<close>.)
\<close>

theorem estimateFees_token_fraction:
  assumes "CHR ''.'' \<in> set (s_amount opts)" and "s_token opts = Some t" and "t \<noteq> ETH"
  shows "(\<forall>est. estimateFees rpc L toks w opts \<noteq> Inr est)
    \<and> (\<forall>n g. transactionCount rpc w (s_from opts) = Inr n \<and> getGasPrice (rpc (provider w)) = Inr g
          \<longrightarrow> estimateFees rpc L toks w opts = Inl (LibError ''toBN''))"
  using assms toBN_point [of "s_amount opts"]
  by (auto simp: estimateFees_def isEth_def Let_def split: sum.splits)

theorem estimateFees_token_fraction_witness:
  "CHR ''.'' \<in> set (s_amount (demo_send\<lparr>s_token := Some USDT\<rparr>))
   \<and> s_token (demo_send\<lparr>s_token := Some USDT\<rparr>) = Some USDT \<and> USDT \<noteq> ETH
   \<and> transactionCount demo_rpc (constructor TEST) (s_from (demo_send\<lparr>s_token := Some USDT\<rparr>)) = Inr 7
   \<and> getGasPrice (demo_rpc (provider (constructor TEST))) = Inr ''20000000000''
   \<and> estimateFees demo_rpc demo_lib demo_tokens (constructor TEST) (demo_send\<lparr>s_token := Some USDT\<rparr>)
       = Inl (LibError ''toBN'')
   \<and> estimateFees demo_rpc demo_lib demo_tokens (constructor TEST) demo_send =
       Inr \<lparr>e_nonce = ''0x7'', e_to = ''0x0000000000000000000000000000000000000abc'', e_value = Str ''0x14d1120d7b160000'',
            e_gasLimit = Num 21000, e_gasPrice = Str ''20000000000'', e_data = None\<rparr>"
proof -
  have h1: "CHR ''.'' \<in> set (s_amount (demo_send\<lparr>s_token := Some USDT\<rparr>))"
    by (simp add: demo_send_def)
  have h2: "s_token (demo_send\<lparr>s_token := Some USDT\<rparr>) = Some USDT" by simp
  have h3: "USDT \<noteq> ETH" by simp
  have c: "transactionCount demo_rpc (constructor TEST) (s_from (demo_send\<lparr>s_token := Some USDT\<rparr>)) = Inr 7"
    and g: "getGasPrice (demo_rpc (provider (constructor TEST))) = Inr ''20000000000''"
    by (simp_all add: transactionCount_def)
  from estimateFees_token_fraction [OF h1 h2 h3, of demo_rpc demo_lib demo_tokens "constructor TEST"] c g
  have "estimateFees demo_rpc demo_lib demo_tokens (constructor TEST) (demo_send\<lparr>s_token := Some USDT\<rparr>)
       = Inl (LibError ''toBN'')"
    by blast
  with h1 h2 h3 c g demo_estimate_native show ?thesis by simp
qed

text \<open>
  Every amount that \<open>toWei_ether\<close> accepts is converted exactly: the result is the numeral
  of the integer \<open>decimal_value amount * 10^18\<close>.
\<close>

lemma split_on_takeWhile:
  "split_on d s = takeWhile (\<lambda>c. c \<noteq> d) s
     # (if d \<in> set s then split_on d (drop 1 (dropWhile (\<lambda>c. c \<noteq> d) s)) else [])"
  by (induction s) auto

lemma split_on_nonempty: "split_on d s \<noteq> []"
  by (subst split_on_takeWhile) simp

lemma base_val_zero_digit: "base_val 10 ''0'' = 0" and base_val_nil: "base_val b [] = 0"
  by (simp_all add: base_val_def digit_val_def)

lemma takeWhile_digits:
  "list_all (\<lambda>c. is_digit c \<or> c = d) body \<Longrightarrow> list_all is_digit (takeWhile (\<lambda>c. c \<noteq> d) body)"
  by (induction body) auto

lemma set_rest_point: "set (drop 1 (dropWhile P body)) \<subseteq> set body"
proof
  fix x
  assume "x \<in> set (drop 1 (dropWhile P body))"
  then have "x \<in> set (dropWhile P body)" by (rule in_set_dropD)
  then show "x \<in> set body" by (rule set_dropWhileD)
qed

lemma toWei_exact:
  assumes "toWei_ether a = Inr wei"
  shows "\<exists>w. wei = int_to_dec w \<and> of_int w = decimal_value a * 10 ^ 18"
proof -
  define neg where "neg = (take 1 a = ''-'')"
  define body where "body = (if neg then drop 1 a else a)"
  define ws where "ws = takeWhile (\<lambda>c. c \<noteq> CHR ''.'') body"
  define fs where "fs = drop 1 (dropWhile (\<lambda>c. c \<noteq> CHR ''.'') body)"
  define comps where "comps = split_on (CHR ''.'') body"
  define whole where "whole = (if ws = [] then ''0'' else ws)"
  define fraction where "fraction = (if fs = [] then ''0'' else fs)"
  define padded where "padded = fraction @ replicate (18 - length fraction) (CHR ''0'')"
  define mag where "mag = BN_parse 10 whole * 10 ^ 18 + BN_parse 10 padded"
  from assms have m: "match_number a"
    by (simp add: toWei_ether_def split: if_splits)
  from assms m have len: "length comps \<le> 2"
    unfolding comps_def body_def neg_def
    by (simp add: toWei_ether_def Let_def split: if_splits)
  have chars: "list_all (\<lambda>c. is_digit c \<or> c = CHR ''.'') body"
    using m unfolding body_def neg_def by (simp add: match_number_def Let_def)
  have wd: "list_all is_digit ws"
    unfolding ws_def using chars by (rule takeWhile_digits)
  have sub: "set fs \<subseteq> set body"
    unfolding fs_def by (rule set_rest_point)
  have unfold: "comps = ws # (if CHR ''.'' \<in> set body then split_on (CHR ''.'') fs else [])"
    unfolding comps_def ws_def fs_def by (rule split_on_takeWhile)
  have fpoint: "CHR ''.'' \<notin> set fs"
  proof
    assume p: "CHR ''.'' \<in> set fs"
    have "split_on (CHR ''.'') fs = takeWhile (\<lambda>c. c \<noteq> CHR ''.'') fs
       # split_on (CHR ''.'') (drop 1 (dropWhile (\<lambda>c. c \<noteq> CHR ''.'') fs))"
      using p by (subst split_on_takeWhile) simp
    then have "2 \<le> length (split_on (CHR ''.'') fs)"
      using split_on_nonempty [of "CHR ''.''" "drop 1 (dropWhile (\<lambda>c. c \<noteq> CHR ''.'') fs)"]
      by (cases "split_on (CHR ''.'') (drop 1 (dropWhile (\<lambda>c. c \<noteq> CHR ''.'') fs))") simp_all
    moreover have "CHR ''.'' \<in> set body" using p sub by auto
    ultimately have "3 \<le> length comps" using unfold by simp
    with len show False by simp
  qed
  have fd: "list_all is_digit fs"
    using chars fpoint sub by (auto simp: list_all_iff)
  have comps: "comps = (if CHR ''.'' \<in> set body then [ws, fs] else [ws])"
    using unfold fpoint by (simp add: split_on_none)
  have fnil: "fs = []" if "CHR ''.'' \<notin> set body"
  proof -
    have "dropWhile (\<lambda>c. c \<noteq> CHR ''.'') body = []"
      using that by (auto simp: dropWhile_eq_Nil_conv)
    then show ?thesis unfolding fs_def by (simp only: drop_Nil)
  qed
  have parts: "(case comps of [] \<Rightarrow> [] | x # _ \<Rightarrow> x) = ws"
    "(case comps of [_, y] \<Rightarrow> y | _ \<Rightarrow> []) = fs"
    using comps fnil by (auto split: list.splits)
  have run: "toWei_ether a =
       (if body = ''.'' then Inl (LibError ''toWei'')
        else if length comps > 2 then Inl (LibError ''toWei'')
        else if length fraction > 18 then Inl (LibError ''toWei'')
        else Inr (int_to_dec (if neg then mag * (- 1) else mag)))"
    using m
    apply (simp only: toWei_ether_def Let_def)
    apply (simp only: neg_def [symmetric])
    apply (simp only: body_def [symmetric])
    apply (simp only: comps_def [symmetric] parts)
    apply (simp only: whole_def [symmetric] fraction_def [symmetric])
    apply (simp only: padded_def [symmetric])
    apply (simp only: mag_def [symmetric])
    apply simp
    done
  from assms run have flen: "length fraction \<le> 18"
    and wei: "wei = int_to_dec (if neg then mag * (- 1) else mag)"
    by (simp_all split: if_splits)
  have zd: "list_all is_digit ''0''" by (simp add: is_digit_def)
  have whole_val: "BN_parse 10 whole = int (base_val 10 ws)"
    unfolding whole_def using wd zd
    by (simp add: BN_parse_digits base_val_zero_digit base_val_nil)
  have pd: "list_all is_digit padded"
    unfolding padded_def fraction_def using fd zd by (auto simp: list_all_iff is_digit_def)
  have "BN_parse 10 padded = int (base_val 10 padded)"
    using pd by (rule BN_parse_digits)
  also have "base_val 10 padded = base_val 10 fraction * 10 ^ (18 - length fraction)"
    unfolding padded_def by (simp only: base_val_append base_val_zeros) simp
  finally have pad_val: "BN_parse 10 padded
      = int (base_val 10 fraction * 10 ^ (18 - length fraction))" .
  have frac: "(of_nat (base_val 10 fraction * 10 ^ (18 - length fraction)) :: rat)
      = of_nat (base_val 10 fs) / 10 ^ length fs * 10 ^ 18"
  proof (cases "fs = []")
    case True
    then show ?thesis by (simp add: fraction_def base_val_zero_digit base_val_nil)
  next
    case False
    with flen have l: "length fs \<le> 18" by (simp add: fraction_def)
    have e: "(10 :: rat) ^ 18 = 10 ^ (18 - length fs) * 10 ^ length fs"
      using l by (simp only: power_add [symmetric]) simp
    have "of_nat (base_val 10 fs) / 10 ^ length fs * (10 :: rat) ^ 18
        = of_nat (base_val 10 fs) / 10 ^ length fs * (10 ^ (18 - length fs) * 10 ^ length fs)"
      by (simp only: e)
    also have "\<dots> = of_nat (base_val 10 fs) * 10 ^ (18 - length fs)"
      by simp
    finally show ?thesis using False by (simp add: fraction_def)
  qed
  have "(of_int mag :: rat)
      = (of_nat (base_val 10 ws) + of_nat (base_val 10 fs) / 10 ^ length fs) * 10 ^ 18"
    unfolding mag_def whole_val pad_val
    using frac by (simp add: algebra_simps)
  then have "(of_int (if neg then mag * (- 1) else mag) :: rat) = decimal_value a * 10 ^ 18"
    by (simp add: decimal_value_def Let_def neg_def body_def ws_def fs_def)
  with wei show ?thesis by blast
qed

lemma transfer_encodeABI_Inr:
  "transfer_encodeABI L c x v = Inr d \<Longrightarrow> d \<noteq> [] \<and> transfer_abi L c x v = Inr d"
  by (auto simp: transfer_encodeABI_def truthy_def split: sum.splits if_splits)

lemma demo_decimal_value: "decimal_value ''1.5'' * 10 ^ 18 = 1500000000000000000"
  by (simp add: decimal_value_def base_val_def digit_val_def)

text \<open>
  Claim C3: an estimate returned for the native asset (or no asset) has no data field,
  the caller's recipient, and as value the encoding by \<open>toHex\<close> of the amount in wei, the
  integer \<open>decimal_value amount * 10^18\<close>. An estimate returned for a registered token has
  the value \<open>0x0\<close>, the contract address of the token as recipient, and as data the
  encoded transfer call, which is not empty.
\<close>

theorem estimateFees_shape:
  assumes ret: "estimateFees rpc L toks w opts = Inr est"
  shows
    "(s_token opts = None \<or> s_token opts = Some ETH \<longrightarrow>
        e_data est = None \<and> e_to est = s_to opts
        \<and> (\<exists>wei. e_value est = Str (toHex L (Str (int_to_dec wei)))
                 \<and> of_int wei = decimal_value (s_amount opts) * 10 ^ 18))
     \<and> (\<forall>t tk. s_token opts = Some t \<and> t \<noteq> ETH
                \<and> find (\<lambda>x. t_symbol x = toLowerCase (token_string t)) (toks (net w)) = Some tk \<longrightarrow>
           e_value est = Str ''0x0'' \<and> e_to est = t_contractAddress tk
           \<and> (\<exists>d a. e_data est = Some d \<and> d \<noteq> [] \<and> toBN (s_amount opts) = Inr a
                    \<and> transfer_abi L (getTokenContract t (t_contractAddress tk) (Some (s_from opts)))
                         (s_to opts) (int_to_dec (a * 10 ^ t_decimals tk)) = Inr d))"
proof (intro conjI impI allI)
  assume nat: "s_token opts = None \<or> s_token opts = Some ETH"
  note n = estimateFees_native [OF ret nat]
  from n show "e_data est = None" by simp
  from n show "e_to est = s_to opts" by simp
  from n obtain s where s: "toWei_ether (s_amount opts) = Inr s"
    and v: "e_value est = Str (toHex L (Str s))" by blast
  from toWei_exact [OF s] v
  show "\<exists>wei. e_value est = Str (toHex L (Str (int_to_dec wei)))
           \<and> of_int wei = decimal_value (s_amount opts) * 10 ^ 18"
    by blast
next
  fix t tk
  assume a: "s_token opts = Some t \<and> t \<noteq> ETH
            \<and> find (\<lambda>x. t_symbol x = toLowerCase (token_string t)) (toks (net w)) = Some tk"
  then have t: "s_token opts = Some t" and ne: "t \<noteq> ETH" by simp_all
  note k = estimateFees_token [OF ret t ne]
  from k a show "e_value est = Str ''0x0''" by simp
  from k a show to: "e_to est = t_contractAddress tk" by simp
  from k a to obtain d x where d: "e_data est = Some d" and x: "toBN (s_amount opts) = Inr x"
    and enc: "transfer_encodeABI L (getTokenContract t (t_contractAddress tk) (Some (s_from opts)))
                (s_to opts) (int_to_dec (x * 10 ^ t_decimals tk)) = Inr d"
    by auto
  from transfer_encodeABI_Inr [OF enc] d x
  show "\<exists>d a. e_data est = Some d \<and> d \<noteq> [] \<and> toBN (s_amount opts) = Inr a
           \<and> transfer_abi L (getTokenContract t (t_contractAddress tk) (Some (s_from opts)))
                (s_to opts) (int_to_dec (a * 10 ^ t_decimals tk)) = Inr d"
    by blast
qed

theorem estimateFees_shape_witness:
  "estimateFees demo_rpc demo_lib demo_tokens (constructor TEST) demo_send =
     Inr \<lparr>e_nonce = ''0x7'', e_to = ''0x0000000000000000000000000000000000000abc'',
          e_value = Str ''0x14d1120d7b160000'',
          e_gasLimit = Num 21000, e_gasPrice = Str ''20000000000'', e_data = None\<rparr>
   \<and> s_token demo_send = None
   \<and> s_amount demo_send = ''1.5''
   \<and> toHex demo_lib (Str (int_to_dec 1500000000000000000)) = ''0x14d1120d7b160000''
   \<and> of_int 1500000000000000000 = decimal_value ''1.5'' * 10 ^ 18
   \<and> estimateFees demo_rpc demo_lib demo_tokens (constructor TEST)
        (demo_send\<lparr>s_amount := ''2'', s_token := Some USDT\<rparr>) =
       Inr \<lparr>e_nonce = ''0x7'', e_to = ''0x110a13fc3efe6a245b50102d2d79b3e76125ae83'',
            e_value = Str ''0x0'', e_gasLimit = Num 21000, e_gasPrice = Str ''20000000000'',
            e_data = Some ''0xa9059cbb0000000000000000000000000000000000000abc1e8480''\<rparr>
   \<and> USDT \<noteq> ETH
   \<and> find (\<lambda>t. t_symbol t = toLowerCase (token_string USDT))
        (demo_tokens (net (constructor TEST))) =
       Some \<lparr>t_symbol = ''usdt'', t_name = ''Tether'',
             t_contractAddress = ''0x110a13fc3efe6a245b50102d2d79b3e76125ae83'',
             t_decimals = 6, t_description = [], t_url = []\<rparr>"
proof -
  note native = estimateFees_shape [OF demo_estimate_native]
  note token = estimateFees_shape [OF demo_estimate_token]
  have a: "s_amount demo_send = ''1.5''" and k: "s_token demo_send = None"
    by (simp_all add: demo_send_def)
  have d: "int_to_dec 1500000000000000000 = ''1500000000000000000''"
    by (simp add: int_to_dec_def nat_to_dec_eval digit_char_def)
  from native k have "e_data \<lparr>e_nonce = ''0x7'', e_to = ''0x0000000000000000000000000000000000000abc'',
          e_value = Str ''0x14d1120d7b160000'',
          e_gasLimit = Num 21000, e_gasPrice = Str ''20000000000'', e_data = None\<rparr> = None"
    by simp
  moreover from token demo_find_usdt
  have "e_to \<lparr>e_nonce = ''0x7'', e_to = ''0x110a13fc3efe6a245b50102d2d79b3e76125ae83'',
            e_value = Str ''0x0'', e_gasLimit = Num 21000, e_gasPrice = Str ''20000000000'',
            e_data = Some ''0xa9059cbb0000000000000000000000000000000000000abc1e8480''\<rparr>
          = ''0x110a13fc3efe6a245b50102d2d79b3e76125ae83''"
    by simp
  ultimately show ?thesis
    using demo_estimate_native demo_estimate_token demo_hex_wei demo_find_usdt
      demo_decimal_value a k d
    by simp
qed

subsection \<open>Balances\<close>

text \<open>
  Claim C2 fails: the token branch passes the raw balance through \<open>Number\<close>. A balance of
  \<open>10000000000000001\<close> base units of a token with 18 decimals is read as the double
  \<open>10000000000000000\<close> and reported as "0.01"; the exact quotient, which the native branch
  would write for the same amount in wei, is "0.010000000000000001".
\<close>

theorem getBalance_token_rounds:
  "contractBalanceOf demo_rpc (constructor TEST)
      (getTokenContract DAI ''0xad6d458402f60fd3bd25163575031acdce07538d'' None) ''0x00000000000000000000000000000000000000ff''
     = Inr 10000000000000001
   \<and> getBalance demo_rpc demo_tokens (constructor TEST) \<lparr>b_address = ''0x00000000000000000000000000000000000000ff'', b_token = Some DAI\<rparr>
     = Inr ''0.01''
   \<and> BigNumber_toString (dividedBy_pow10 10000000000000001 18) = ''0.010000000000000001''
   \<and> fromWei_ether 10000000000000001 = ''0.010000000000000001''"
  by (simp add: getBalance_def contractBalanceOf_def isEth_def demo_find_dai getTokenContract_def
      js_Number_demo js_String_demo toString_demo demo_fromWei)

text \<open>
  The token branch also takes a decimal count of 0 as absent (\<open>token?.decimals || 18\<close>): 5
  base units of a token without decimals are reported as \<open>5e-18\<close>.
\<close>

lemma getBalance_zero_decimals:
  "getBalance (\<lambda>u. demo_node\<lparr>balanceOf_call := (\<lambda>c a. Inr 5)\<rparr>)
      (\<lambda>n. [\<lparr>t_symbol = ''bnb'', t_name = [], t_contractAddress = ''0xb1'', t_decimals = 0,
              t_description = [], t_url = []\<rparr>])
      (constructor TEST) \<lparr>b_address = ''0x00000000000000000000000000000000000000ff'', b_token = Some BNB\<rparr>
     = Inr ''5e-18''"
proof -
  have d: "nat_to_dec 5 = ''5''" "nat_to_dec 18 = ''18''"
    by (simp_all add: nat_to_dec_eval digit_char_def)
  have n: "js_Number 5 = 5" "js_Number 10 = 10"
    by (simp_all add: js_Number_eval)
  have s: "js_String_value 5 = 5"
    unfolding js_String_value_def d by (simp add: shortest_from_eval n Let_def)
  have t: "BigNumber_toString (dividedBy_pow10 5 18) = ''5e-18''"
    by (simp add: BigNumber_toString_def dividedBy_pow10_def d count_trailing_zeros_def
        toExponential_def int_to_dec_def Let_def)
  show ?thesis
    by (simp add: getBalance_def contractBalanceOf_def isEth_def getTokenContract_def
        toLowerCase_def lower_char_def n s t)
qed

end
